theory Spec2Isabelle
  imports Main
begin

section \<open>Data model (expenses/models.py)\<close>

text \<open>
  Money is a Django \<open>DecimalField\<close> with two decimal places; a value is represented by its
  number of hundredths, an unbounded integer. The database adds and subtracts such values
  exactly. Primary keys are the positive integers the database allocates; an instance that
  was never saved has no primary key (\<open>None\<close>), and \<open>if self.pk\<close> and \<open>if self.account_id\<close>
  ask whether the value is set. An instance has all its other fields set, as the serializers
  require. Descriptions and timestamps play no part in the balance logic and are left out,
  and so is the user table.
\<close>

type_synonym money = int

record account =
  a_user :: nat
  a_name :: string
  balance :: money
  is_system :: bool

record category =
  c_user :: nat
  c_name :: string

record expense =
  e_pk :: "nat option"
  e_user :: nat
  e_account :: nat
  e_category :: nat
  e_amount :: money

record income =
  i_pk :: "nat option"
  i_user :: nat
  i_account :: nat
  i_amount :: money

record transfer =
  t_pk :: "nat option"
  t_user :: nat
  from_account :: nat
  to_account :: nat
  t_amount :: money

text \<open>A table is the list of its rows, each with its primary key.\<close>

type_synonym 'r table = "(nat \<times> 'r) list"

record db =
  accounts :: "account table"
  categories :: "category table"
  expenses :: "expense table"
  incomes :: "income table"
  transfers :: "transfer table"

datatype error =
    ValidationError string string
  | DoesNotExist
  | IntegrityError
  | MultipleObjectsReturned
  | ValueError

section \<open>Table primitives\<close>

text \<open>\<open>Model.objects.get(pk=k)\<close>: the row, or \<open>DoesNotExist\<close> (here \<open>None\<close>).\<close>

definition get_row :: "nat \<Rightarrow> 'r table \<Rightarrow> 'r option" where
  "get_row k tbl = map_of tbl k"

definition has_row :: "nat \<Rightarrow> 'r table \<Rightarrow> bool" where
  "has_row k tbl = (k \<in> set (map fst tbl))"

definition update_row :: "nat \<Rightarrow> 'r \<Rightarrow> 'r table \<Rightarrow> 'r table" where
  "update_row k r tbl = map (\<lambda>(i, x). if i = k then (i, r) else (i, x)) tbl"

definition delete_row :: "nat \<Rightarrow> 'r table \<Rightarrow> 'r table" where
  "delete_row k tbl = filter (\<lambda>(i, x). i \<noteq> k) tbl"

text \<open>The key of the next inserted row: one more than every key in use.\<close>

definition fresh_pk :: "'r table \<Rightarrow> nat" where
  "fresh_pk tbl = Suc (fold max (map fst tbl) 0)"

text \<open>
  \<open>super().save()\<close>: an instance without a primary key is inserted under a fresh key, which
  the instance then carries; an instance with a key overwrites its row, and is inserted
  under that key when no such row exists.
\<close>

definition save_row :: "nat option \<Rightarrow> (nat \<Rightarrow> 'r) \<Rightarrow> 'r table \<Rightarrow> 'r table" where
  "save_row pk inst tbl =
     (case pk of
        None \<Rightarrow> tbl @ [(fresh_pk tbl, inst (fresh_pk tbl))]
      | Some k \<Rightarrow> if has_row k tbl then update_row k (inst k) tbl else tbl @ [(k, inst k)])"

section \<open>Account store\<close>

text \<open>
  \<open>Account.objects.filter(pk=k).update(balance=F('balance') + d)\<close>: every row with that key
  gets the delta; no row, no change. The definitions compute this arithmetic on unbounded
  integers. The balance column itself is \<open>DecimalField(max_digits=12, decimal_places=2)\<close>:
  a balance of more than 12 digits cannot be read back into an account object, and a
  database that enforces the column width refuses the update that would store it. The
  predicate \<open>balances_in_field\<close> below says that every balance of a database is one the
  column carries; a statement that a save is accepted is made only for databases that are
  in the field before the save, after the reversal and after the new effect.
\<close>

definition bump :: "nat \<Rightarrow> money \<Rightarrow> nat \<times> account \<Rightarrow> nat \<times> account" where
  "bump k d row = (if fst row = k then (fst row, (snd row)\<lparr>balance := balance (snd row) + d\<rparr>) else row)"

definition adjust_balance :: "nat \<Rightarrow> money \<Rightarrow> account table \<Rightarrow> account table" where
  "adjust_balance k d accs = map (bump k d) accs"

definition adjust :: "nat \<Rightarrow> money \<Rightarrow> db \<Rightarrow> db" where
  "adjust k d s = s\<lparr>accounts := adjust_balance k d (accounts s)\<rparr>"

definition balance_of :: "nat \<Rightarrow> db \<Rightarrow> money option" where
  "balance_of k s = map_option balance (get_row k (accounts s))"

text \<open>
  \<open>with transaction.atomic()\<close>: when the block raises, the database is rolled back to the
  state at entry and the exception goes on to the caller.
\<close>

definition atomic :: "(db \<Rightarrow> error option \<times> db) \<Rightarrow> db \<Rightarrow> error option \<times> db" where
  "atomic body s = (case body s of (None, s') \<Rightarrow> (None, s') | (Some e, s') \<Rightarrow> (Some e, s))"

text \<open>
  \<open>DecimalField(max_digits=n, decimal_places=2)\<close> accepts at most \<open>n\<close> digits, two of them
  after the point.
\<close>

definition decimal_fits :: "nat \<Rightarrow> money \<Rightarrow> bool" where
  "decimal_fits max_digits v = (\<bar>v\<bar> < 10 ^ max_digits)"

section \<open>Expense\<close>

text \<open>\<open>Expense.clean\<close>; reading \<open>self.account\<close> or \<open>self.category\<close> fetches the row.\<close>

definition Expense_clean :: "expense \<Rightarrow> db \<Rightarrow> error option" where
  "Expense_clean self s =
     (case get_row (e_account self) (accounts s) of
        None \<Rightarrow> Some DoesNotExist
      | Some acc \<Rightarrow>
          if a_user acc \<noteq> e_user self
            then Some (ValidationError ''account'' ''Account must belong to the same user.'')
          else
            (case get_row (e_category self) (categories s) of
               None \<Rightarrow> Some DoesNotExist
             | Some cat \<Rightarrow>
                 if c_user cat \<noteq> e_user self
                   then Some (ValidationError ''category'' ''Category must belong to the same user.'')
                 else if is_system acc
                   then Some (ValidationError ''account'' ''System account cannot be used for expenses.'')
                 else None))"

text \<open>
  \<open>full_clean\<close> of an expense: \<open>clean\<close>, the width of the amount field, and the check
  constraint \<open>expense_amount_gt_0\<close>.
\<close>

definition Expense_full_clean :: "expense \<Rightarrow> db \<Rightarrow> error option" where
  "Expense_full_clean self s =
     (case Expense_clean self s of
        Some e \<Rightarrow> Some e
      | None \<Rightarrow>
          if \<not> decimal_fits 10 (e_amount self)
            then Some (ValidationError ''amount'' ''Ensure that there are no more than 10 digits in total.'')
          else if \<not> 0 < e_amount self
            then Some (ValidationError ''__all__'' ''Constraint expense_amount_gt_0 is violated.'')
          else None)"

definition Expense_super_save :: "expense \<Rightarrow> db \<Rightarrow> db" where
  "Expense_super_save self s =
     s\<lparr>expenses := save_row (e_pk self) (\<lambda>k. self\<lparr>e_pk := Some k\<rparr>) (expenses s)\<rparr>"

definition Expense_save_body :: "expense \<Rightarrow> db \<Rightarrow> error option \<times> db" where
  "Expense_save_body self s =
     (case e_pk self of
        Some k \<Rightarrow>
          (case get_row k (expenses s) of
             None \<Rightarrow> (Some DoesNotExist, s)
           | Some prev \<Rightarrow>
               (None, Expense_super_save self
                  (if e_account prev \<noteq> e_account self then
                     adjust (e_account self) (- e_amount self)
                       (adjust (e_account prev) (e_amount prev) s)
                   else
                     (let delta = e_amount self - e_amount prev in
                      adjust (e_account self) (- delta) s))))
      | None \<Rightarrow>
          (None, Expense_super_save self (adjust (e_account self) (- e_amount self) s)))"

definition Expense_save :: "expense \<Rightarrow> db \<Rightarrow> error option \<times> db" where
  "Expense_save self s =
     (case Expense_full_clean self s of
        Some e \<Rightarrow> (Some e, s)
      | None \<Rightarrow> atomic (Expense_save_body self) s)"

text \<open>
  \<open>Expense.delete\<close> credits the amount the instance holds to the account the instance
  names; \<open>super().delete()\<close> refuses an instance without a primary key.
\<close>

definition Expense_delete_body :: "expense \<Rightarrow> db \<Rightarrow> error option \<times> db" where
  "Expense_delete_body self s =
     (let s1 = adjust (e_account self) (e_amount self) s in
      case e_pk self of
        None \<Rightarrow> (Some ValueError, s1)
      | Some k \<Rightarrow> (None, s1\<lparr>expenses := delete_row k (expenses s1)\<rparr>))"

definition Expense_delete :: "expense \<Rightarrow> db \<Rightarrow> error option \<times> db" where
  "Expense_delete self s = atomic (Expense_delete_body self) s"

section \<open>Income\<close>

definition Income_clean :: "income \<Rightarrow> db \<Rightarrow> error option" where
  "Income_clean self s =
     (case get_row (i_account self) (accounts s) of
        None \<Rightarrow> Some DoesNotExist
      | Some acc \<Rightarrow>
          if a_user acc \<noteq> i_user self
            then Some (ValidationError ''account'' ''Account must belong to the same user.'')
          else if is_system acc
            then Some (ValidationError ''account'' ''System account cannot be used for incomes.'')
          else None)"

definition Income_full_clean :: "income \<Rightarrow> db \<Rightarrow> error option" where
  "Income_full_clean self s =
     (case Income_clean self s of
        Some e \<Rightarrow> Some e
      | None \<Rightarrow>
          if \<not> decimal_fits 10 (i_amount self)
            then Some (ValidationError ''amount'' ''Ensure that there are no more than 10 digits in total.'')
          else if \<not> 0 < i_amount self
            then Some (ValidationError ''__all__'' ''Constraint income_amount_gt_0 is violated.'')
          else None)"

definition Income_super_save :: "income \<Rightarrow> db \<Rightarrow> db" where
  "Income_super_save self s =
     s\<lparr>incomes := save_row (i_pk self) (\<lambda>k. self\<lparr>i_pk := Some k\<rparr>) (incomes s)\<rparr>"

definition Income_save_body :: "income \<Rightarrow> db \<Rightarrow> error option \<times> db" where
  "Income_save_body self s =
     (case i_pk self of
        Some k \<Rightarrow>
          (case get_row k (incomes s) of
             None \<Rightarrow> (Some DoesNotExist, s)
           | Some prev \<Rightarrow>
               (None, Income_super_save self
                  (if i_account prev \<noteq> i_account self then
                     adjust (i_account self) (i_amount self)
                       (adjust (i_account prev) (- i_amount prev) s)
                   else
                     (let delta = i_amount self - i_amount prev in
                      adjust (i_account self) delta s))))
      | None \<Rightarrow>
          (None, Income_super_save self (adjust (i_account self) (i_amount self) s)))"

definition Income_save :: "income \<Rightarrow> db \<Rightarrow> error option \<times> db" where
  "Income_save self s =
     (case Income_full_clean self s of
        Some e \<Rightarrow> (Some e, s)
      | None \<Rightarrow> atomic (Income_save_body self) s)"

definition Income_delete_body :: "income \<Rightarrow> db \<Rightarrow> error option \<times> db" where
  "Income_delete_body self s =
     (let s1 = adjust (i_account self) (- i_amount self) s in
      case i_pk self of
        None \<Rightarrow> (Some ValueError, s1)
      | Some k \<Rightarrow> (None, s1\<lparr>incomes := delete_row k (incomes s1)\<rparr>))"

definition Income_delete :: "income \<Rightarrow> db \<Rightarrow> error option \<times> db" where
  "Income_delete self s = atomic (Income_delete_body self) s"

section \<open>Transfer\<close>

text \<open>
  \<open>Transfer.clean\<close>. Reading \<open>self.from_account\<close> fetches the account row and raises
  \<open>DoesNotExist\<close> when there is none.
\<close>

definition Transfer_clean :: "transfer \<Rightarrow> db \<Rightarrow> error option" where
  "Transfer_clean self s =
     (if t_amount self \<le> 0 then Some (ValidationError ''amount'' ''Amount must be > 0.'')
      else if from_account self = to_account self
        then Some (ValidationError ''__all__'' ''from_account and to_account must be different.'')
      else
        (case get_row (from_account self) (accounts s) of
           None \<Rightarrow> Some DoesNotExist
         | Some fa \<Rightarrow>
             if a_user fa \<noteq> t_user self
               then Some (ValidationError ''from_account'' ''Account must belong to the same user.'')
             else
               (case get_row (to_account self) (accounts s) of
                  None \<Rightarrow> Some DoesNotExist
                | Some ta \<Rightarrow>
                    if a_user ta \<noteq> t_user self
                      then Some (ValidationError ''to_account'' ''Account must belong to the same user.'')
                    else None)))"

text \<open>
  \<open>full_clean\<close> runs the field validators, \<open>clean\<close> and the check constraints, and raises
  one \<open>ValidationError\<close> when any of them failed; of its messages the first is kept. For
  a transfer the constraints (amount positive, accounts different) repeat what \<open>clean\<close>
  checks.
\<close>

definition Transfer_full_clean :: "transfer \<Rightarrow> db \<Rightarrow> error option" where
  "Transfer_full_clean self s =
     (case Transfer_clean self s of
        Some e \<Rightarrow> Some e
      | None \<Rightarrow>
          if decimal_fits 10 (t_amount self) then None
          else Some (ValidationError ''amount'' ''Ensure that there are no more than 10 digits in total.''))"

definition reverse_effect :: "transfer \<Rightarrow> db \<Rightarrow> db" where
  "reverse_effect prev s =
     adjust (to_account prev) (- t_amount prev) (adjust (from_account prev) (t_amount prev) s)"

definition apply_effect :: "transfer \<Rightarrow> db \<Rightarrow> db" where
  "apply_effect self s =
     adjust (to_account self) (t_amount self) (adjust (from_account self) (- t_amount self) s)"

definition Transfer_super_save :: "transfer \<Rightarrow> db \<Rightarrow> db" where
  "Transfer_super_save self s =
     s\<lparr>transfers := save_row (t_pk self) (\<lambda>k. self\<lparr>t_pk := Some k\<rparr>) (transfers s)\<rparr>"

definition insufficient_funds :: error where
  "insufficient_funds = ValidationError ''amount'' ''Insufficient funds in from_account.''"

text \<open>
  The block of \<open>Transfer.save\<close> under \<open>transaction.atomic()\<close>. The second component is the
  database as the block leaves it, also when it raises.
\<close>

definition Transfer_save_body :: "transfer \<Rightarrow> db \<Rightarrow> error option \<times> db" where
  "Transfer_save_body self s =
     (let locked = filter (\<lambda>(i, a). i = from_account self \<or> i = to_account self) (accounts s) in
      if length locked \<noteq> 2 then (Some (ValidationError ''__all__'' ''Both accounts must exist.''), s)
      else
        (case (case t_pk self of
                 None \<Rightarrow> Inr None
               | Some k \<Rightarrow>
                   (case get_row k (transfers s) of
                      None \<Rightarrow> Inl DoesNotExist
                    | Some p \<Rightarrow> Inr (Some p))) of
           Inl e \<Rightarrow> (Some e, s)
         | Inr prev \<Rightarrow>
             (let s1 = (case prev of None \<Rightarrow> s | Some p \<Rightarrow> reverse_effect p s) in
              case get_row (from_account self) (accounts s1) of
                None \<Rightarrow> (Some DoesNotExist, s1)
              | Some from_acct \<Rightarrow>
                  (let allow_overdraft = is_system from_acct in
                   if \<not> allow_overdraft \<and> balance from_acct < t_amount self then
                     (Some insufficient_funds,
                      (case prev of
                         None \<Rightarrow> s1
                       | Some p \<Rightarrow>
                           adjust (to_account p) (t_amount p)
                             (adjust (from_account p) (- t_amount p) s1)))
                   else (None, Transfer_super_save self (apply_effect self s1))))))"

definition Transfer_save :: "transfer \<Rightarrow> db \<Rightarrow> error option \<times> db" where
  "Transfer_save self s =
     (case Transfer_full_clean self s of
        Some e \<Rightarrow> (Some e, s)
      | None \<Rightarrow> atomic (Transfer_save_body self) s)"

text \<open>\<open>Transfer.delete\<close>: the stored row is read again and its effect reversed.\<close>

definition Transfer_delete_body :: "transfer \<Rightarrow> db \<Rightarrow> error option \<times> db" where
  "Transfer_delete_body self s =
     (case t_pk self of
        None \<Rightarrow> (Some DoesNotExist, s)
      | Some k \<Rightarrow>
          (case get_row k (transfers s) of
             None \<Rightarrow> (Some DoesNotExist, s)
           | Some prev \<Rightarrow>
               (None, (reverse_effect prev s)\<lparr>transfers := delete_row k (transfers s)\<rparr>)))"

definition Transfer_delete :: "transfer \<Rightarrow> db \<Rightarrow> error option \<times> db" where
  "Transfer_delete self s = atomic (Transfer_delete_body self) s"

section \<open>The external account (expenses/utils.py)\<close>

text \<open>
  Inserting an account row is subject to the constraint \<open>unique_account_name_per_user\<close>:
  the database refuses a second row with the same user and name.
\<close>

definition name_taken :: "nat \<Rightarrow> string \<Rightarrow> account table \<Rightarrow> bool" where
  "name_taken user name accs = list_ex (\<lambda>(i, a). a_user a = user \<and> a_name a = name) accs"

definition Account_create :: "account \<Rightarrow> db \<Rightarrow> (error + nat \<times> account) \<times> db" where
  "Account_create new s =
     (if name_taken (a_user new) (a_name new) (accounts s) then (Inl IntegrityError, s)
      else (Inr (fresh_pk (accounts s), new),
            s\<lparr>accounts := accounts s @ [(fresh_pk (accounts s), new)]\<rparr>))"

text \<open>
  \<open>get_external_account\<close> is \<open>Account.objects.get_or_create(user=user, is_system=True,
  defaults=...)\<close>: the one matching row when there is one, \<open>MultipleObjectsReturned\<close> when
  there are several, and otherwise a new row built from the lookup and the defaults. When
  the insert is refused, \<open>get_or_create\<close> looks once more and, still finding nothing, raises
  the \<open>IntegrityError\<close>.
\<close>

definition get_external_account :: "nat \<Rightarrow> db \<Rightarrow> (error + nat \<times> account) \<times> db" where
  "get_external_account user s =
     (case filter (\<lambda>(i, a). a_user a = user \<and> is_system a) (accounts s) of
        [] \<Rightarrow>
          Account_create
            \<lparr>a_user = user, a_name = ''External (System)'', balance = 0, is_system = True\<rparr> s
      | [acc] \<Rightarrow> (Inr acc, s)
      | _ \<Rightarrow> (Inl MultipleObjectsReturned, s))"

section \<open>TransferSerializer.validate (expenses/serializers.py)\<close>

text \<open>
  The attributes of a request, each an object or absent; an account object is its row with
  its key. The instance being updated, when there is one, supplies what the request leaves
  out.
\<close>

record transfer_attrs =
  attr_from :: "(nat \<times> account) option"
  attr_to :: "(nat \<times> account) option"
  attr_amount :: "money option"

definition or_else :: "'a option \<Rightarrow> 'a option \<Rightarrow> 'a option" where
  "or_else x d = (case x of Some v \<Rightarrow> Some v | None \<Rightarrow> d)"

definition TransferSerializer_validate ::
  "nat \<Rightarrow> bool \<Rightarrow> transfer_attrs option \<Rightarrow> transfer_attrs \<Rightarrow> error option" where
  "TransferSerializer_validate user allow_system instance attrs =
     (let from_acc = or_else (attr_from attrs) (case instance of None \<Rightarrow> None | Some i \<Rightarrow> attr_from i);
          to_acc = or_else (attr_to attrs) (case instance of None \<Rightarrow> None | Some i \<Rightarrow> attr_to i);
          amount = or_else (attr_amount attrs) (case instance of None \<Rightarrow> None | Some i \<Rightarrow> attr_amount i)
      in
      if instance = None \<and> (from_acc = None \<or> to_acc = None \<or> amount = None)
        then Some (ValidationError
                     (if from_acc = None then ''from_account''
                      else if to_acc = None then ''to_account'' else ''amount'')
                     ''This field is required.'')
      else if (case amount of None \<Rightarrow> True | Some a \<Rightarrow> a \<le> 0)
        then Some (ValidationError ''amount'' ''Amount must be greater than 0.'')
      else if (case (from_acc, to_acc) of (Some f, Some t) \<Rightarrow> fst f = fst t | _ \<Rightarrow> False)
        then Some (ValidationError ''__all__'' ''from_account and to_account must be different.'')
      else if (case from_acc of Some f \<Rightarrow> a_user (snd f) \<noteq> user | None \<Rightarrow> False)
        then Some (ValidationError ''from_account'' ''Account does not belong to you.'')
      else if (case to_acc of Some t \<Rightarrow> a_user (snd t) \<noteq> user | None \<Rightarrow> False)
        then Some (ValidationError ''to_account'' ''Account does not belong to you.'')
      else if ((case from_acc of Some f \<Rightarrow> is_system (snd f) | None \<Rightarrow> False) \<or>
               (case to_acc of Some t \<Rightarrow> is_system (snd t) | None \<Rightarrow> False)) \<and> \<not> allow_system
        then Some (ValidationError ''__all__'' ''System accounts cannot be used in regular transfers.'')
      else None)"

section \<open>Ledger sums and mutations\<close>

text \<open>
  The balance the ledger accounts for: incomes and incoming transfers of the account, less
  its expenses and outgoing transfers, over the rows now stored.
\<close>

definition total :: "('r \<Rightarrow> nat) \<Rightarrow> ('r \<Rightarrow> money) \<Rightarrow> nat \<Rightarrow> 'r table \<Rightarrow> money" where
  "total acct amt a tbl = sum_list (map (\<lambda>(k, r). if acct r = a then amt r else 0) tbl)"

definition ledger_balance :: "nat \<Rightarrow> db \<Rightarrow> money" where
  "ledger_balance a s =
     total i_account i_amount a (incomes s) + total to_account t_amount a (transfers s)
     - total e_account e_amount a (expenses s) - total from_account t_amount a (transfers s)"

definition balances_consistent :: "db \<Rightarrow> bool" where
  "balances_consistent s = list_all (\<lambda>(a, acc). balance acc = ledger_balance a s) (accounts s)"

text \<open>Primary keys are unique in each ledger table.\<close>

definition pk_unique :: "db \<Rightarrow> bool" where
  "pk_unique s =
     (distinct (map fst (expenses s)) \<and> distinct (map fst (incomes s)) \<and>
      distinct (map fst (transfers s)))"

text \<open>
  The mutations of the ledger, as the viewsets issue them: a save of an instance (a create
  when it has no primary key, an update otherwise), and a delete of the stored row with a
  given key, which loads the instance from the row and calls its \<open>delete\<close>.
\<close>

datatype mutation =
    SaveExpense expense
  | DeleteExpense nat
  | SaveIncome income
  | DeleteIncome nat
  | SaveTransfer transfer
  | DeleteTransfer nat

fun perform :: "mutation \<Rightarrow> db \<Rightarrow> error option \<times> db" where
  "perform (SaveExpense e) s = Expense_save e s"
| "perform (DeleteExpense k) s =
     (case get_row k (expenses s) of
        None \<Rightarrow> (Some DoesNotExist, s)
      | Some e \<Rightarrow> Expense_delete (e\<lparr>e_pk := Some k\<rparr>) s)"
| "perform (SaveIncome i) s = Income_save i s"
| "perform (DeleteIncome k) s =
     (case get_row k (incomes s) of
        None \<Rightarrow> (Some DoesNotExist, s)
      | Some i \<Rightarrow> Income_delete (i\<lparr>i_pk := Some k\<rparr>) s)"
| "perform (SaveTransfer t) s = Transfer_save t s"
| "perform (DeleteTransfer k) s =
     (case get_row k (transfers s) of
        None \<Rightarrow> (Some DoesNotExist, s)
      | Some t \<Rightarrow> Transfer_delete (t\<lparr>t_pk := Some k\<rparr>) s)"

text \<open>A run of mutations, one after the other; a failed one leaves the database as it was.\<close>

fun perform_all :: "mutation list \<Rightarrow> db \<Rightarrow> db" where
  "perform_all [] s = s"
| "perform_all (m # ms) s = perform_all ms (snd (perform m s))"

text \<open>Every transfer row names accounts of the transfer's own user.\<close>

definition owner_of :: "nat \<Rightarrow> db \<Rightarrow> nat option" where
  "owner_of k s = map_option a_user (get_row k (accounts s))"

definition transfers_owned :: "db \<Rightarrow> bool" where
  "transfers_owned s =
     list_all (\<lambda>(k, t). owner_of (from_account t) s = Some (t_user t) \<and>
                        owner_of (to_account t) s = Some (t_user t)) (transfers s)"

definition owned_row :: "db \<Rightarrow> transfer \<Rightarrow> bool" where
  "owned_row s t = (owner_of (from_account t) s = Some (t_user t) \<and>
                    owner_of (to_account t) s = Some (t_user t))"

section \<open>The update protocol in the spec's words\<close>

text \<open>
  Full reverse-then-reapply of an entry that is being updated: the stored entry's effect is
  taken back from the account it named, then the effect of the new values is applied to
  the account they name.
\<close>

definition expense_reverse_then_reapply :: "expense \<Rightarrow> expense \<Rightarrow> db \<Rightarrow> db" where
  "expense_reverse_then_reapply prev self s =
     adjust (e_account self) (- e_amount self) (adjust (e_account prev) (e_amount prev) s)"

definition income_reverse_then_reapply :: "income \<Rightarrow> income \<Rightarrow> db \<Rightarrow> db" where
  "income_reverse_then_reapply prev self s =
     adjust (i_account self) (i_amount self) (adjust (i_account prev) (- i_amount prev) s)"

text \<open>
  The database against which \<open>Transfer.save\<close> checks the funds: the one at entry for a
  new transfer, and the one with the stored row's effect reversed for an update.
\<close>

definition prior_reversed :: "transfer \<Rightarrow> db \<Rightarrow> db" where
  "prior_reversed self s =
     (case t_pk self of
        None \<Rightarrow> s
      | Some k \<Rightarrow> (case get_row k (transfers s) of None \<Rightarrow> s | Some p \<Rightarrow> reverse_effect p s))"

text \<open>Every account row holds the balance that \<open>f\<close> gives for its key.\<close>

definition balances_match :: "(nat \<Rightarrow> money) \<Rightarrow> account table \<Rightarrow> bool" where
  "balances_match f accs = list_all (\<lambda>(a, acc). balance acc = f a) accs"

section \<open>The balance column, opening balances and the seed command\<close>

text \<open>Every stored balance fits \<open>DecimalField(max_digits=12, decimal_places=2)\<close>.\<close>

definition balances_in_field :: "db \<Rightarrow> bool" where
  "balances_in_field s = list_all (\<lambda>(a, acc). decimal_fits 12 (balance acc)) (accounts s)"

text \<open>
  What each account holds beyond what the ledger accounts for, row by row: the balance less
  the ledger sum.
\<close>

definition offsets_from :: "(nat \<Rightarrow> money) \<Rightarrow> account table \<Rightarrow> (nat \<times> money) list" where
  "offsets_from f accs = map (\<lambda>(a, acc). (a, balance acc - f a)) accs"

definition offsets :: "db \<Rightarrow> (nat \<times> money) list" where
  "offsets s = offsets_from (\<lambda>a. ledger_balance a s) (accounts s)"

text \<open>
  \<open>Account.objects.get_or_create(user=user, name=name, defaults={"balance": b})\<close>, as the
  seed command calls it: the account of that user and name when there is one, and otherwise
  a new regular account that starts at balance \<open>b\<close>.
\<close>

definition Account_get_or_create ::
  "nat \<Rightarrow> string \<Rightarrow> money \<Rightarrow> db \<Rightarrow> (error + nat \<times> account) \<times> db" where
  "Account_get_or_create user name b s =
     (case filter (\<lambda>(i, a). a_user a = user \<and> a_name a = name) (accounts s) of
        [] \<Rightarrow> Account_create \<lparr>a_user = user, a_name = name, balance = b, is_system = False\<rparr> s
      | [acc] \<Rightarrow> (Inr acc, s)
      | _ \<Rightarrow> (Inl MultipleObjectsReturned, s))"

text \<open>
  The accounts of \<open>Command.handle\<close> in management/commands/seed.py: ``SBI Savings'' opened at
  15000.00 and ``HDFC Checking'' at 8000.00.
\<close>

definition seed_accounts :: "nat \<Rightarrow> db \<Rightarrow> db" where
  "seed_accounts user s =
     snd (Account_get_or_create user ''HDFC Checking'' 800000
            (snd (Account_get_or_create user ''SBI Savings'' 1500000 s)))"

definition empty_db :: db where
  "empty_db = \<lparr>accounts = [], categories = [], expenses = [], incomes = [], transfers = []\<rparr>"

section \<open>A sample database\<close>

text \<open>
  One user with a checking account (1), a savings account (2) and the external account (3);
  incomes of 1100 and 200 opened the two accounts, expense 1 took 100 from checking, and
  transfer 1 moved 300 from checking to savings.
\<close>

definition sample_db :: db where
  "sample_db =
     \<lparr>accounts =
        [(1, \<lparr>a_user = 1, a_name = ''Checking'', balance = 700, is_system = False\<rparr>),
         (2, \<lparr>a_user = 1, a_name = ''Savings'', balance = 500, is_system = False\<rparr>),
         (3, \<lparr>a_user = 1, a_name = ''External (System)'', balance = 0, is_system = True\<rparr>)],
      categories = [(1, \<lparr>c_user = 1, c_name = ''Food''\<rparr>)],
      expenses =
        [(1, \<lparr>e_pk = Some 1, e_user = 1, e_account = 1, e_category = 1, e_amount = 100\<rparr>)],
      incomes =
        [(1, \<lparr>i_pk = Some 1, i_user = 1, i_account = 1, i_amount = 1100\<rparr>),
         (2, \<lparr>i_pk = Some 2, i_user = 1, i_account = 2, i_amount = 200\<rparr>)],
      transfers =
        [(1, \<lparr>t_pk = Some 1, t_user = 1, from_account = 1, to_account = 2, t_amount = 300\<rparr>)]\<rparr>"

section \<open>Properties of the account store and the tables\<close>


lemma bump_cancel [simp]: "bump k (- d) (bump k d row) = row" "bump k d (bump k (- d) row) = row"
  by (cases row; simp add: bump_def)+

lemma adjust_balance_cancel [simp]:
  "adjust_balance k (- d) (adjust_balance k d accs) = accs"
  "adjust_balance k d (adjust_balance k (- d) accs) = accs"
  by (simp_all add: adjust_balance_def comp_def)

lemma bump_commute: "bump k d (bump k' d' row) = bump k' d' (bump k d row)"
  by (cases row) (simp add: bump_def)

lemma adjust_balance_commute:
  "adjust_balance k d (adjust_balance k' d' accs) = adjust_balance k' d' (adjust_balance k d accs)"
  by (simp add: adjust_balance_def bump_commute)

lemma keys_adjust_balance [simp]: "map fst (adjust_balance k d accs) = map fst accs"
  by (simp add: adjust_balance_def bump_def comp_def)

lemma get_row_adjust_balance:
  "get_row j (adjust_balance k d accs) =
     (if j = k then map_option (\<lambda>a. a\<lparr>balance := balance a + d\<rparr>) (get_row j accs)
      else get_row j accs)"
  by (induction accs) (auto simp: get_row_def adjust_balance_def bump_def)

lemma put_back_after_reverse:
  "adjust (to_account p) (t_amount p) (adjust (from_account p) (- t_amount p) (reverse_effect p s)) = s"
proof -
  have "adjust_balance (to_account p) (t_amount p)
          (adjust_balance (from_account p) (- t_amount p)
            (adjust_balance (to_account p) (- t_amount p)
              (adjust_balance (from_account p) (t_amount p) (accounts s)))) = accounts s"
    by (simp add: adjust_balance_commute [of "from_account p" _ "to_account p"])
  then show ?thesis by (simp add: reverse_effect_def adjust_def)
qed

lemma locked_count:
  "distinct (map fst xs) \<Longrightarrow> a \<noteq> b \<Longrightarrow>
   length (filter (\<lambda>(i, x). i = a \<or> i = b) xs) =
     (if has_row a xs then 1 else 0) + (if has_row b xs then 1 else 0)"
proof (induction xs)
  case Nil
  then show ?case by (simp add: has_row_def)
next
  case (Cons r xs)
  obtain i x where r: "r = (i, x)" by (cases r)
  from Cons.prems have d: "distinct (map fst xs)" and ni: "i \<notin> fst ` set xs" by (auto simp: r)
  have ih: "length (filter (\<lambda>(i, x). i = a \<or> i = b) xs) =
     (if has_row a xs then 1 else 0) + (if has_row b xs then 1 else 0)"
    using Cons.IH d Cons.prems(2) by simp
  show ?case using ih ni Cons.prems(2) by (force simp: r has_row_def)
qed

lemma get_row_has_row: "get_row k tbl = Some r \<Longrightarrow> has_row k tbl"
  by (auto simp: get_row_def has_row_def dest: map_of_SomeD intro: rev_image_eqI)

lemma Transfer_full_clean_NoneD:
  assumes "Transfer_full_clean self s = None"
  shows "0 < t_amount self" "from_account self \<noteq> to_account self"
    "\<exists>fa. get_row (from_account self) (accounts s) = Some fa \<and> a_user fa = t_user self"
    "\<exists>ta. get_row (to_account self) (accounts s) = Some ta \<and> a_user ta = t_user self"
    "decimal_fits 10 (t_amount self)"
  using assms
  by (auto simp: Transfer_full_clean_def Transfer_clean_def split: option.splits if_splits)

lemma locked_both:
  assumes "Transfer_full_clean self s = None" "distinct (map fst (accounts s))"
  shows "length (filter (\<lambda>(i, a). i = from_account self \<or> i = to_account self) (accounts s)) = 2"
  using Transfer_full_clean_NoneD [OF assms(1)] assms(2)
  by (auto simp: locked_count dest: get_row_has_row)

text \<open>
  C1. An update of a stored transfer that fails the funds check: after the prior effect is
  reversed, the from-account is not a system account and holds less than the new amount.
  The block puts the reversed effect back, so it leaves the database exactly as it found
  it, and the save reports insufficient funds with the database unchanged.
\<close>

theorem Transfer_update_insufficient_funds:
  assumes "t_pk self = Some k" and "get_row k (transfers s) = Some prev"
    and "Transfer_full_clean self s = None" and "distinct (map fst (accounts s))"
    and "get_row (from_account self) (accounts (reverse_effect prev s)) = Some fa"
    and "\<not> is_system fa" and "balance fa < t_amount self"
  shows "Transfer_save_body self s = (Some insufficient_funds, s) \<and>
         Transfer_save self s = (Some insufficient_funds, s)"
proof -
  have l: "length (filter (\<lambda>(i, a). i = from_account self \<or> i = to_account self) (accounts s)) = 2"
    using assms(3,4) by (rule locked_both)
  have b: "Transfer_save_body self s = (Some insufficient_funds, s)"
    using assms(1,2,5,6,7) l
    by (simp add: Transfer_save_body_def put_back_after_reverse)
  then show ?thesis using assms(3) by (simp add: Transfer_save_def atomic_def)
qed


lemmas sample_eval = sample_db_def get_row_def has_row_def update_row_def delete_row_def fresh_pk_def
  save_row_def bump_def adjust_balance_def adjust_def balance_of_def atomic_def decimal_fits_def
  reverse_effect_def apply_effect_def insufficient_funds_def

theorem Transfer_update_insufficient_funds_witness:
  "Transfer_save \<lparr>t_pk = Some 1, t_user = 1, from_account = 1, to_account = 2, t_amount = 5000\<rparr> sample_db
     = (Some insufficient_funds, sample_db)"
  using Transfer_update_insufficient_funds
    [of "\<lparr>t_pk = Some 1, t_user = 1, from_account = 1, to_account = 2, t_amount = 5000\<rparr>" 1 sample_db
        "\<lparr>t_pk = Some 1, t_user = 1, from_account = 1, to_account = 2, t_amount = 300\<rparr>"
        "\<lparr>a_user = 1, a_name = ''Checking'', balance = 1000, is_system = False\<rparr>"]
  by (simp add: sample_eval Transfer_full_clean_def Transfer_clean_def)


lemma fold_max_ge: "a \<le> fold max xs (a::nat) \<and> (\<forall>x\<in>set xs. x \<le> fold max xs a)"
proof (induction xs arbitrary: a)
  case Nil
  show ?case by simp
next
  case (Cons y ys)
  have "max y a \<le> fold max ys (max y a)" "\<forall>x\<in>set ys. x \<le> fold max ys (max y a)"
    using Cons.IH [of "max y a"] by simp_all
  then show ?case by auto
qed

lemma fresh_pk_new: "\<not> has_row (fresh_pk tbl) tbl"
proof
  assume "has_row (fresh_pk tbl) tbl"
  then have "fresh_pk tbl \<le> fold max (map fst tbl) 0"
    using fold_max_ge [of 0 "map fst tbl"] by (auto simp: has_row_def)
  then show False by (simp add: fresh_pk_def)
qed

lemma get_row_None_iff: "get_row k tbl = None \<longleftrightarrow> \<not> has_row k tbl"
  by (simp add: get_row_def has_row_def map_of_eq_None_iff)

lemma get_row_append_new: "\<not> has_row k tbl \<Longrightarrow> get_row k (tbl @ [(k, r)]) = Some r"
  using get_row_None_iff [of k tbl] by (simp add: get_row_def map_add_def)

lemma reverse_after_apply: "accounts (reverse_effect p (apply_effect p s)) = accounts s"
proof -
  have "adjust_balance (to_account p) (- t_amount p)
          (adjust_balance (from_account p) (t_amount p)
            (adjust_balance (to_account p) (t_amount p)
              (adjust_balance (from_account p) (- t_amount p) (accounts s)))) = accounts s"
    by (simp add: adjust_balance_commute [of "from_account p" _ "to_account p"])
  then show ?thesis by (simp add: reverse_effect_def apply_effect_def adjust_def)
qed

lemma Transfer_delete_stored:
  assumes "t_pk self = Some k" and "get_row k (transfers s) = Some prev"
  shows "Transfer_delete self s =
           (None, (reverse_effect prev s)\<lparr>transfers := delete_row k (transfers s)\<rparr>)"
  using assms by (simp add: Transfer_delete_def Transfer_delete_body_def atomic_def)

lemma Transfer_create_ok:
  assumes "t_pk new = None" and "Transfer_save new s0 = (None, s1)"
  shows "s1 = (apply_effect new s0)\<lparr>transfers :=
                 transfers s0 @ [(fresh_pk (transfers s0), new\<lparr>t_pk := Some (fresh_pk (transfers s0))\<rparr>)]\<rparr>"
  using assms
  by (auto simp: Transfer_save_def Transfer_save_body_def atomic_def Transfer_super_save_def
      save_row_def Let_def apply_effect_def adjust_def
      split: option.splits if_splits)

lemma balance_of_adjust:
  "balance_of j (adjust k d s) = (if j = k then map_option (\<lambda>b. b + d) (balance_of j s) else balance_of j s)"
  by (simp add: balance_of_def adjust_def get_row_adjust_balance option.map_comp comp_def)

text \<open>
  C8. Deleting a stored transfer credits its amount back to the from-account, debits it
  from the to-account and removes the row; deleting a transfer that was just created
  restores the accounts and the transfer table to what they were before it was created.
\<close>

theorem Transfer_delete_restores:
  "(t_pk self = Some k \<and> get_row k (transfers s) = Some prev \<longrightarrow>
      Transfer_delete self s =
        (None, s\<lparr>accounts := adjust_balance (to_account prev) (- t_amount prev)
                              (adjust_balance (from_account prev) (t_amount prev) (accounts s)),
                  transfers := delete_row k (transfers s)\<rparr>) \<and>
      (from_account prev \<noteq> to_account prev \<longrightarrow>
         balance_of (from_account prev) (snd (Transfer_delete self s)) =
           map_option (\<lambda>b. b + t_amount prev) (balance_of (from_account prev) s) \<and>
         balance_of (to_account prev) (snd (Transfer_delete self s)) =
           map_option (\<lambda>b. b - t_amount prev) (balance_of (to_account prev) s))) \<and>
   (t_pk new = None \<and> Transfer_save new s0 = (None, s1) \<longrightarrow>
      fst (Transfer_delete (new\<lparr>t_pk := Some (fresh_pk (transfers s0))\<rparr>) s1) = None \<and>
      accounts (snd (Transfer_delete (new\<lparr>t_pk := Some (fresh_pk (transfers s0))\<rparr>) s1)) = accounts s0 \<and>
      transfers (snd (Transfer_delete (new\<lparr>t_pk := Some (fresh_pk (transfers s0))\<rparr>) s1)) = transfers s0)"
proof (intro conjI impI)
  assume a: "t_pk self = Some k \<and> get_row k (transfers s) = Some prev"
  then have d: "Transfer_delete self s =
      (None, (reverse_effect prev s)\<lparr>transfers := delete_row k (transfers s)\<rparr>)"
    by (simp add: Transfer_delete_stored)
  show "Transfer_delete self s =
        (None, s\<lparr>accounts := adjust_balance (to_account prev) (- t_amount prev)
                              (adjust_balance (from_account prev) (t_amount prev) (accounts s)),
                  transfers := delete_row k (transfers s)\<rparr>)"
    by (simp add: d reverse_effect_def adjust_def)
  assume ne: "from_account prev \<noteq> to_account prev"
  have b: "balance_of j (x\<lparr>transfers := t\<rparr>) = balance_of j x" for j x t
    by (simp add: balance_of_def)
  show "balance_of (from_account prev) (snd (Transfer_delete self s)) =
           map_option (\<lambda>b. b + t_amount prev) (balance_of (from_account prev) s)"
    using ne by (simp add: d b reverse_effect_def balance_of_adjust)
  show "balance_of (to_account prev) (snd (Transfer_delete self s)) =
           map_option (\<lambda>b. b - t_amount prev) (balance_of (to_account prev) s)"
    using ne by (simp add: d b reverse_effect_def balance_of_adjust)
next
  assume a: "t_pk new = None \<and> Transfer_save new s0 = (None, s1)"
  let ?k = "fresh_pk (transfers s0)"
  let ?n = "new\<lparr>t_pk := Some ?k\<rparr>"
  have s1: "s1 = (apply_effect new s0)\<lparr>transfers := transfers s0 @ [(?k, ?n)]\<rparr>"
    using a by (simp add: Transfer_create_ok)
  have t0: "transfers (apply_effect new s0) = transfers s0"
    by (simp add: apply_effect_def adjust_def)
  have g: "get_row ?k (transfers s1) = Some ?n"
    by (simp add: s1 get_row_append_new fresh_pk_new)
  have d: "Transfer_delete ?n s1 = (None, (reverse_effect ?n s1)\<lparr>transfers := delete_row ?k (transfers s1)\<rparr>)"
    using g by (simp add: Transfer_delete_stored)
  show "fst (Transfer_delete ?n s1) = None" by (simp add: d)
  have r: "accounts (reverse_effect ?n s1) = accounts (reverse_effect new (apply_effect new s0))"
    by (simp add: s1 reverse_effect_def adjust_def)
  show "accounts (snd (Transfer_delete ?n s1)) = accounts s0"
    by (simp add: d r reverse_after_apply)
  have "\<forall>(i, x)\<in>set (transfers s0). i \<noteq> ?k"
    using fresh_pk_new [of "transfers s0"] by (force simp: has_row_def)
  then have dr: "delete_row ?k (transfers s0 @ [(?k, ?n)]) = transfers s0"
    by (auto simp: delete_row_def intro!: filter_True)
  have ts1: "transfers s1 = transfers s0 @ [(?k, ?n)]"
    by (simp add: s1)
  have "transfers (snd (Transfer_delete ?n s1)) = delete_row ?k (transfers s1)"
    by (simp add: d)
  then show "transfers (snd (Transfer_delete ?n s1)) = transfers s0"
    by (simp only: ts1 dr)
qed

theorem Transfer_delete_restores_witness:
  "Transfer_save \<lparr>t_pk = None, t_user = 1, from_account = 1, to_account = 2, t_amount = 300\<rparr>
      (sample_db\<lparr>accounts := adjust_balance 2 (- 300) (adjust_balance 1 300 (accounts sample_db)), transfers := []\<rparr>)
     = (None, sample_db) \<and>
   balance_of 1 sample_db = Some 700 \<and> balance_of 2 sample_db = Some 500 \<and>
   balance_of 1 (snd (Transfer_delete \<lparr>t_pk = Some 1, t_user = 1, from_account = 1, to_account = 2, t_amount = 300\<rparr> sample_db)) = Some 1000 \<and>
   balance_of 2 (snd (Transfer_delete \<lparr>t_pk = Some 1, t_user = 1, from_account = 1, to_account = 2, t_amount = 300\<rparr> sample_db)) = Some 200"
  using Transfer_delete_restores
    [of "\<lparr>t_pk = Some 1, t_user = 1, from_account = 1, to_account = 2, t_amount = 300\<rparr>" 1 sample_db
        "\<lparr>t_pk = Some 1, t_user = 1, from_account = 1, to_account = 2, t_amount = 300\<rparr>"
        "\<lparr>t_pk = None, t_user = 1, from_account = 1, to_account = 2, t_amount = 300\<rparr>"
        "sample_db\<lparr>accounts := adjust_balance 2 (- 300) (adjust_balance 1 300 (accounts sample_db)), transfers := []\<rparr>"
        sample_db]
  by (simp add: sample_eval Transfer_save_def Transfer_save_body_def Transfer_full_clean_def Transfer_clean_def Transfer_super_save_def)


lemma bump_merge: "bump k d (bump k d' row) = bump k (d + d') row"
  by (cases row) (simp add: bump_def)

lemma adjust_balance_merge:
  "adjust_balance k d (adjust_balance k d' accs) = adjust_balance k (d + d') accs"
  by (simp add: adjust_balance_def bump_merge)

lemma balance_of_table_update [simp]:
  "balance_of j (s\<lparr>expenses := es\<rparr>) = balance_of j s"
  "balance_of j (s\<lparr>incomes := ins\<rparr>) = balance_of j s"
  "balance_of j (s\<lparr>transfers := ts\<rparr>) = balance_of j s"
  by (simp_all add: balance_of_def)

lemma Expense_update_ok:
  assumes "e_pk e = Some k" and "get_row k (expenses s) = Some pe" and "Expense_full_clean e s = None"
  shows "Expense_save e s = (None, Expense_super_save e (expense_reverse_then_reapply pe e s))"
proof (cases "e_account pe = e_account e")
  case True
  have "adjust (e_account e) (- (e_amount e - e_amount pe)) s =
        adjust (e_account e) (- e_amount e) (adjust (e_account e) (e_amount pe) s)"
    by (simp add: adjust_def adjust_balance_merge)
  then show ?thesis using assms True
    by (simp add: Expense_save_def Expense_save_body_def atomic_def expense_reverse_then_reapply_def)
next
  case False
  then show ?thesis using assms
    by (simp add: Expense_save_def Expense_save_body_def atomic_def expense_reverse_then_reapply_def)
qed

lemma Income_update_ok:
  assumes "i_pk i = Some k" and "get_row k (incomes s) = Some pinc" and "Income_full_clean i s = None"
  shows "Income_save i s = (None, Income_super_save i (income_reverse_then_reapply pinc i s))"
proof (cases "i_account pinc = i_account i")
  case True
  have "adjust (i_account i) (i_amount i - i_amount pinc) s =
        adjust (i_account i) (i_amount i) (adjust (i_account i) (- i_amount pinc) s)"
    by (simp add: adjust_def adjust_balance_merge)
  then show ?thesis using assms True
    by (simp add: Income_save_def Income_save_body_def atomic_def income_reverse_then_reapply_def)
next
  case False
  then show ?thesis using assms
    by (simp add: Income_save_def Income_save_body_def atomic_def income_reverse_then_reapply_def)
qed

text \<open>
  C5. An update of a stored expense or income leaves the balances that a full
  reverse-then-reapply leaves. When the account changed, the old account gets the old
  amount back (for an income: loses it) and the new account is charged (credited) the
  new amount; when it did not, the account moves by the difference of the amounts alone.
\<close>

theorem update_is_reverse_then_reapply:
  "(e_pk e = Some k \<and> get_row k (expenses s) = Some pe \<and> Expense_full_clean e s = None \<longrightarrow>
      Expense_save e s = (None, Expense_super_save e (expense_reverse_then_reapply pe e s)) \<and>
      (e_account pe \<noteq> e_account e \<longrightarrow>
         balance_of (e_account pe) (snd (Expense_save e s)) =
           map_option (\<lambda>b. b + e_amount pe) (balance_of (e_account pe) s) \<and>
         balance_of (e_account e) (snd (Expense_save e s)) =
           map_option (\<lambda>b. b - e_amount e) (balance_of (e_account e) s)) \<and>
      (e_account pe = e_account e \<longrightarrow>
         accounts (snd (Expense_save e s)) =
           adjust_balance (e_account e) (- (e_amount e - e_amount pe)) (accounts s))) \<and>
   (i_pk i = Some j \<and> get_row j (incomes s) = Some pinc \<and> Income_full_clean i s = None \<longrightarrow>
      Income_save i s = (None, Income_super_save i (income_reverse_then_reapply pinc i s)) \<and>
      (i_account pinc \<noteq> i_account i \<longrightarrow>
         balance_of (i_account pinc) (snd (Income_save i s)) =
           map_option (\<lambda>b. b - i_amount pinc) (balance_of (i_account pinc) s) \<and>
         balance_of (i_account i) (snd (Income_save i s)) =
           map_option (\<lambda>b. b + i_amount i) (balance_of (i_account i) s)) \<and>
      (i_account pinc = i_account i \<longrightarrow>
         accounts (snd (Income_save i s)) =
           adjust_balance (i_account i) (i_amount i - i_amount pinc) (accounts s)))"
proof (intro conjI impI)
  assume a: "e_pk e = Some k \<and> get_row k (expenses s) = Some pe \<and> Expense_full_clean e s = None"
  then show r: "Expense_save e s = (None, Expense_super_save e (expense_reverse_then_reapply pe e s))"
    by (simp add: Expense_update_ok)
  {
    assume ne: "e_account pe \<noteq> e_account e"
    show "balance_of (e_account pe) (snd (Expense_save e s)) =
           map_option (\<lambda>b. b + e_amount pe) (balance_of (e_account pe) s)"
      using ne by (simp add: r Expense_super_save_def expense_reverse_then_reapply_def balance_of_adjust)
    show "balance_of (e_account e) (snd (Expense_save e s)) =
           map_option (\<lambda>b. b - e_amount e) (balance_of (e_account e) s)"
      using ne by (simp add: r Expense_super_save_def expense_reverse_then_reapply_def balance_of_adjust)
  }
  {
    assume "e_account pe = e_account e"
    then show "accounts (snd (Expense_save e s)) =
           adjust_balance (e_account e) (- (e_amount e - e_amount pe)) (accounts s)"
      by (simp add: r Expense_super_save_def expense_reverse_then_reapply_def adjust_def adjust_balance_merge)
  }
next
  assume a: "i_pk i = Some j \<and> get_row j (incomes s) = Some pinc \<and> Income_full_clean i s = None"
  then show r: "Income_save i s = (None, Income_super_save i (income_reverse_then_reapply pinc i s))"
    by (simp add: Income_update_ok)
  {
    assume ne: "i_account pinc \<noteq> i_account i"
    show "balance_of (i_account pinc) (snd (Income_save i s)) =
           map_option (\<lambda>b. b - i_amount pinc) (balance_of (i_account pinc) s)"
      using ne by (simp add: r Income_super_save_def income_reverse_then_reapply_def balance_of_adjust)
    show "balance_of (i_account i) (snd (Income_save i s)) =
           map_option (\<lambda>b. b + i_amount i) (balance_of (i_account i) s)"
      using ne by (simp add: r Income_super_save_def income_reverse_then_reapply_def balance_of_adjust)
  }
  {
    assume "i_account pinc = i_account i"
    then show "accounts (snd (Income_save i s)) =
           adjust_balance (i_account i) (i_amount i - i_amount pinc) (accounts s)"
      by (simp add: r Income_super_save_def income_reverse_then_reapply_def adjust_def adjust_balance_merge)
  }
qed


theorem update_is_reverse_then_reapply_witness:
  "balance_of 1 sample_db = Some 700 \<and> balance_of 2 sample_db = Some 500 \<and>
   balance_of 1 (snd (Expense_save \<lparr>e_pk = Some 1, e_user = 1, e_account = 1, e_category = 1, e_amount = 150\<rparr> sample_db)) = Some 650 \<and>
   balance_of 2 (snd (Income_save \<lparr>i_pk = Some 2, i_user = 1, i_account = 1, i_amount = 200\<rparr> sample_db)) = Some 300 \<and>
   balance_of 1 (snd (Income_save \<lparr>i_pk = Some 2, i_user = 1, i_account = 1, i_amount = 200\<rparr> sample_db)) = Some 900"
  using update_is_reverse_then_reapply
    [of "\<lparr>e_pk = Some 1, e_user = 1, e_account = 1, e_category = 1, e_amount = 150\<rparr>" 1 sample_db
        "\<lparr>e_pk = Some 1, e_user = 1, e_account = 1, e_category = 1, e_amount = 100\<rparr>"
        "\<lparr>i_pk = Some 2, i_user = 1, i_account = 1, i_amount = 200\<rparr>" 2
        "\<lparr>i_pk = Some 2, i_user = 1, i_account = 2, i_amount = 200\<rparr>"]
  by (simp add: sample_eval Expense_full_clean_def Expense_clean_def Income_full_clean_def Income_clean_def
      Expense_super_save_def Income_super_save_def expense_reverse_then_reapply_def
      income_reverse_then_reapply_def)


lemma atomic_failure: "fst (atomic body s) \<noteq> None \<Longrightarrow> snd (atomic body s) = s"
  by (auto simp: atomic_def split: prod.splits option.splits)

lemma Expense_save_failure: "fst (Expense_save e s) \<noteq> None \<Longrightarrow> snd (Expense_save e s) = s"
  by (auto simp: Expense_save_def atomic_failure split: option.splits)

lemma Income_save_failure: "fst (Income_save i s) \<noteq> None \<Longrightarrow> snd (Income_save i s) = s"
  by (auto simp: Income_save_def atomic_failure split: option.splits)

lemma Transfer_save_failure: "fst (Transfer_save t s) \<noteq> None \<Longrightarrow> snd (Transfer_save t s) = s"
  by (auto simp: Transfer_save_def atomic_failure split: option.splits)

lemma perform_failure: "fst (perform m s) \<noteq> None \<Longrightarrow> snd (perform m s) = s"
  by (cases m)
    (auto simp: Expense_save_failure Income_save_failure Transfer_save_failure
      Expense_delete_def Income_delete_def Transfer_delete_def atomic_failure
      split: option.splits)

lemma Expense_save_validated:
  assumes "fst (Expense_save e s) = None"
  shows "Expense_full_clean e s = None"
  using assms by (auto simp: Expense_save_def split: option.splits)

lemma Income_save_validated:
  assumes "fst (Income_save i s) = None"
  shows "Income_full_clean i s = None"
  using assms by (auto simp: Income_save_def split: option.splits)

lemma Expense_full_clean_NoneD:
  assumes "Expense_full_clean e s = None"
  shows "owner_of (e_account e) s = Some (e_user e)"
    and "map_option c_user (get_row (e_category e) (categories s)) = Some (e_user e)"
    and "map_option is_system (get_row (e_account e) (accounts s)) = Some False"
    and "0 < e_amount e"
  using assms
  by (auto simp: Expense_full_clean_def Expense_clean_def owner_of_def
      split: option.splits if_splits)

lemma Income_full_clean_NoneD:
  assumes "Income_full_clean i s = None"
  shows "owner_of (i_account i) s = Some (i_user i)"
    and "map_option is_system (get_row (i_account i) (accounts s)) = Some False"
    and "0 < i_amount i"
  using assms
  by (auto simp: Income_full_clean_def Income_clean_def owner_of_def
      split: option.splits if_splits)

text \<open>
  C9. A save of an expense or income validates first: when \<open>full_clean\<close> fails, the save
  returns that error and the database it was given. A save that goes through has passed
  every check: the account (and the category) belongs to the entry's user, the account is
  not a system account and the amount is positive. Every mutation that fails, whatever the
  reason, leaves the database as it was.
\<close>

theorem validation_precedes_balances:
  "(Expense_full_clean e s = Some err \<longrightarrow> Expense_save e s = (Some err, s)) \<and>
   (Income_full_clean i s = Some err' \<longrightarrow> Income_save i s = (Some err', s)) \<and>
   (fst (Expense_save e' s) = None \<longrightarrow>
      owner_of (e_account e') s = Some (e_user e') \<and>
      map_option c_user (get_row (e_category e') (categories s)) = Some (e_user e') \<and>
      map_option is_system (get_row (e_account e') (accounts s)) = Some False \<and>
      0 < e_amount e') \<and>
   (fst (Income_save i' s) = None \<longrightarrow>
      owner_of (i_account i') s = Some (i_user i') \<and>
      map_option is_system (get_row (i_account i') (accounts s)) = Some False \<and>
      0 < i_amount i') \<and>
   (fst (perform m s) \<noteq> None \<longrightarrow> snd (perform m s) = s)"
proof (intro conjI impI)
  assume "Expense_full_clean e s = Some err"
  then show "Expense_save e s = (Some err, s)" by (simp add: Expense_save_def)
next
  assume "Income_full_clean i s = Some err'"
  then show "Income_save i s = (Some err', s)" by (simp add: Income_save_def)
next
  assume a: "fst (Expense_save e' s) = None"
  note v = Expense_full_clean_NoneD [OF Expense_save_validated [OF a]]
  show "owner_of (e_account e') s = Some (e_user e')" by (rule v)
  show "map_option c_user (get_row (e_category e') (categories s)) = Some (e_user e')" by (rule v)
  show "map_option is_system (get_row (e_account e') (accounts s)) = Some False" by (rule v)
  show "0 < e_amount e'" by (rule v)
next
  assume a: "fst (Income_save i' s) = None"
  note v = Income_full_clean_NoneD [OF Income_save_validated [OF a]]
  show "owner_of (i_account i') s = Some (i_user i')" by (rule v)
  show "map_option is_system (get_row (i_account i') (accounts s)) = Some False" by (rule v)
  show "0 < i_amount i'" by (rule v)
next
  assume "fst (perform m s) \<noteq> None"
  then show "snd (perform m s) = s" by (simp add: perform_failure)
qed

theorem validation_precedes_balances_witness:
  "Expense_save \<lparr>e_pk = None, e_user = 1, e_account = 3, e_category = 1, e_amount = 50\<rparr> sample_db =
     (Some (ValidationError ''account'' ''System account cannot be used for expenses.''), sample_db) \<and>
   Income_save \<lparr>i_pk = None, i_user = 1, i_account = 1, i_amount = 0\<rparr> sample_db =
     (Some (ValidationError ''__all__'' ''Constraint income_amount_gt_0 is violated.''), sample_db) \<and>
   fst (Expense_save \<lparr>e_pk = None, e_user = 1, e_account = 1, e_category = 1, e_amount = 50\<rparr> sample_db) = None \<and>
   fst (Income_save \<lparr>i_pk = None, i_user = 1, i_account = 2, i_amount = 50\<rparr> sample_db) = None \<and>
   perform (DeleteExpense 7) sample_db = (Some DoesNotExist, sample_db)"
  using validation_precedes_balances
    [of "\<lparr>e_pk = None, e_user = 1, e_account = 3, e_category = 1, e_amount = 50\<rparr>" sample_db
        "ValidationError ''account'' ''System account cannot be used for expenses.''"
        "\<lparr>i_pk = None, i_user = 1, i_account = 1, i_amount = 0\<rparr>"
        "ValidationError ''__all__'' ''Constraint income_amount_gt_0 is violated.''"
        "\<lparr>e_pk = None, e_user = 1, e_account = 1, e_category = 1, e_amount = 50\<rparr>"
        "\<lparr>i_pk = None, i_user = 1, i_account = 2, i_amount = 50\<rparr>"
        "DeleteExpense 7"]
  by (simp add: sample_eval Expense_full_clean_def Expense_clean_def Income_full_clean_def Income_clean_def
      Expense_save_def Income_save_def Expense_save_body_def Income_save_body_def owner_of_def)


lemma owner_of_adjust [simp]: "owner_of j (adjust k d s) = owner_of j s"
  by (simp add: owner_of_def adjust_def get_row_adjust_balance option.map_comp comp_def)

lemma owner_of_table_update [simp]:
  "owner_of j (s\<lparr>expenses := es\<rparr>) = owner_of j s"
  "owner_of j (s\<lparr>incomes := ins\<rparr>) = owner_of j s"
  "owner_of j (s\<lparr>transfers := ts\<rparr>) = owner_of j s"
  by (simp_all add: owner_of_def)

lemma owner_of_reverse_effect [simp]: "owner_of j (reverse_effect p s) = owner_of j s"
  by (simp add: reverse_effect_def)

lemma owner_of_apply_effect [simp]: "owner_of j (apply_effect p s) = owner_of j s"
  by (simp add: apply_effect_def)

lemma owner_of_prior_reversed [simp]: "owner_of j (prior_reversed t s) = owner_of j s"
  by (simp add: prior_reversed_def split: option.splits)

lemma system_flag_adjust_balance:
  "map_option is_system (get_row j (adjust_balance k d accs)) = map_option is_system (get_row j accs)"
  by (simp add: get_row_adjust_balance option.map_comp comp_def)

lemma system_flag_prior_reversed:
  "map_option is_system (get_row j (accounts (prior_reversed t s))) =
   map_option is_system (get_row j (accounts s))"
  by (simp add: prior_reversed_def reverse_effect_def adjust_def system_flag_adjust_balance
      split: option.splits)

lemma Transfer_clean_by_owner:
  "Transfer_clean t s =
     (if t_amount t \<le> 0 then Some (ValidationError ''amount'' ''Amount must be > 0.'')
      else if from_account t = to_account t
        then Some (ValidationError ''__all__'' ''from_account and to_account must be different.'')
      else
        (case owner_of (from_account t) s of
           None \<Rightarrow> Some DoesNotExist
         | Some u \<Rightarrow>
             if u \<noteq> t_user t
               then Some (ValidationError ''from_account'' ''Account must belong to the same user.'')
             else
               (case owner_of (to_account t) s of
                  None \<Rightarrow> Some DoesNotExist
                | Some u' \<Rightarrow>
                    if u' \<noteq> t_user t
                      then Some (ValidationError ''to_account'' ''Account must belong to the same user.'')
                    else None)))"
  by (simp add: Transfer_clean_def owner_of_def split: option.splits)

lemma Transfer_full_clean_cong:
  assumes "\<And>j. owner_of j s' = owner_of j s"
    and "from_account t' = from_account t" "to_account t' = to_account t"
    and "t_amount t' = t_amount t" "t_user t' = t_user t"
  shows "Transfer_full_clean t' s' = Transfer_full_clean t s"
  unfolding Transfer_full_clean_def Transfer_clean_by_owner assms by (rule refl)

lemma locked_adjust_balance:
  "filter (\<lambda>(i, a). P i) (adjust_balance k d accs) = adjust_balance k d (filter (\<lambda>(i, a). P i) accs)"
  by (induction accs) (auto simp: adjust_balance_def bump_def)

lemma length_adjust_balance [simp]: "length (adjust_balance k d accs) = length accs"
  by (simp add: adjust_balance_def)

lemma locked_reverse_effect:
  "length (filter (\<lambda>(i, a). P i) (accounts (reverse_effect p s))) =
   length (filter (\<lambda>(i, a). P i) (accounts s))"
  by (simp add: reverse_effect_def adjust_def locked_adjust_balance)

text \<open>The save of a transfer in closed form.\<close>

lemma Transfer_save_unfold:
  "Transfer_save t s =
     (case Transfer_full_clean t s of
        Some e \<Rightarrow> (Some e, s)
      | None \<Rightarrow>
          if length (filter (\<lambda>(i, a). i = from_account t \<or> i = to_account t) (accounts s)) \<noteq> 2
            then (Some (ValidationError ''__all__'' ''Both accounts must exist.''), s)
          else if (case t_pk t of None \<Rightarrow> False | Some k \<Rightarrow> get_row k (transfers s) = None)
            then (Some DoesNotExist, s)
          else
            (case get_row (from_account t) (accounts (prior_reversed t s)) of
               None \<Rightarrow> (Some DoesNotExist, s)
             | Some fa \<Rightarrow>
                 if \<not> is_system fa \<and> balance fa < t_amount t then (Some insufficient_funds, s)
                 else (None, Transfer_super_save t (apply_effect t (prior_reversed t s)))))"
  by (simp add: Transfer_save_def Transfer_save_body_def atomic_def prior_reversed_def Let_def
      split: option.splits)

lemma Transfer_save_okD:
  assumes "fst (Transfer_save t s) = None"
  shows "Transfer_full_clean t s = None"
    and "\<exists>fa. get_row (from_account t) (accounts (prior_reversed t s)) = Some fa \<and>
              (is_system fa \<or> t_amount t \<le> balance fa)"
    and "snd (Transfer_save t s) = Transfer_super_save t (apply_effect t (prior_reversed t s))"
  using assms
  by (auto simp: Transfer_save_unfold split: option.splits if_splits)

lemma balance_of_Transfer_super_save [simp]:
  "balance_of j (Transfer_super_save t s) = balance_of j s"
  by (simp add: Transfer_super_save_def)

lemma balance_of_apply_effect_from:
  "from_account t \<noteq> to_account t \<Longrightarrow>
   balance_of (from_account t) (apply_effect t s) =
     map_option (\<lambda>b. b - t_amount t) (balance_of (from_account t) s)"
  by (simp add: apply_effect_def balance_of_adjust)

text \<open>
  C6. A validated transfer out of a system account, so of a positive amount of at most ten
  digits, goes through whatever that account holds, and takes the amount from it, below
  zero if need be, in a database whose balances stay within the balance column. A transfer
  out of an account that is not a system account goes through only if the account, with the
  prior effect of an update reversed, holds at least the amount.
\<close>

theorem system_account_skips_funds_check:
  "(Transfer_full_clean t s = None \<and> distinct (map fst (accounts s)) \<and>
    (case t_pk t of None \<Rightarrow> True | Some k \<Rightarrow> has_row k (transfers s)) \<and>
    map_option is_system (get_row (from_account t) (accounts s)) = Some True \<and>
    balances_in_field s \<and> balances_in_field (prior_reversed t s) \<and>
    balances_in_field (apply_effect t (prior_reversed t s)) \<longrightarrow>
      fst (Transfer_save t s) = None \<and>
      balance_of (from_account t) (snd (Transfer_save t s)) =
        map_option (\<lambda>b. b - t_amount t) (balance_of (from_account t) (prior_reversed t s)) \<and>
      (t_pk t = None \<longrightarrow>
         accounts (snd (Transfer_save t s)) =
           adjust_balance (to_account t) (t_amount t)
             (adjust_balance (from_account t) (- t_amount t) (accounts s)))) \<and>
   (fst (Transfer_save t' s') = None \<and>
    map_option is_system (get_row (from_account t') (accounts s')) = Some False \<longrightarrow>
      (case balance_of (from_account t') (prior_reversed t' s') of
         None \<Rightarrow> False
       | Some b \<Rightarrow> t_amount t' \<le> b))"
proof (intro conjI impI)
  assume a: "Transfer_full_clean t s = None \<and> distinct (map fst (accounts s)) \<and>
    (case t_pk t of None \<Rightarrow> True | Some k \<Rightarrow> has_row k (transfers s)) \<and>
    map_option is_system (get_row (from_account t) (accounts s)) = Some True \<and>
    balances_in_field s \<and> balances_in_field (prior_reversed t s) \<and>
    balances_in_field (apply_effect t (prior_reversed t s))"
  then have l: "length (filter (\<lambda>(i, a). i = from_account t \<or> i = to_account t) (accounts s)) = 2"
    by (simp add: locked_both)
  from a have st: "\<not> (case t_pk t of None \<Rightarrow> False | Some k \<Rightarrow> get_row k (transfers s) = None)"
    by (auto simp: get_row_None_iff split: option.splits)
  from a have "map_option is_system (get_row (from_account t) (accounts (prior_reversed t s))) = Some True"
    by (simp add: system_flag_prior_reversed)
  then obtain fa where fa: "get_row (from_account t) (accounts (prior_reversed t s)) = Some fa" "is_system fa"
    by auto
  have r: "Transfer_save t s = (None, Transfer_super_save t (apply_effect t (prior_reversed t s)))"
    using a l st fa by (simp add: Transfer_save_unfold)
  show "fst (Transfer_save t s) = None" by (simp add: r)
  have "from_account t \<noteq> to_account t"
    using a Transfer_full_clean_NoneD(2) by blast
  then show "balance_of (from_account t) (snd (Transfer_save t s)) =
        map_option (\<lambda>b. b - t_amount t) (balance_of (from_account t) (prior_reversed t s))"
    by (simp add: r balance_of_apply_effect_from)
  assume "t_pk t = None"
  then show "accounts (snd (Transfer_save t s)) =
           adjust_balance (to_account t) (t_amount t)
             (adjust_balance (from_account t) (- t_amount t) (accounts s))"
    by (simp add: r prior_reversed_def apply_effect_def adjust_def Transfer_super_save_def)
next
  assume a: "fst (Transfer_save t' s') = None \<and>
    map_option is_system (get_row (from_account t') (accounts s')) = Some False"
  then obtain fa where fa: "get_row (from_account t') (accounts (prior_reversed t' s')) = Some fa"
      "is_system fa \<or> t_amount t' \<le> balance fa"
    using Transfer_save_okD(2) by blast
  have "map_option is_system (get_row (from_account t') (accounts (prior_reversed t' s'))) = Some False"
    using a by (simp add: system_flag_prior_reversed)
  then have "\<not> is_system fa" using fa(1) by simp
  then show "case balance_of (from_account t') (prior_reversed t' s') of
         None \<Rightarrow> False
       | Some b \<Rightarrow> t_amount t' \<le> b"
    using fa by (simp add: balance_of_def)
qed

theorem system_account_skips_funds_check_witness:
  "balance_of 3 sample_db = Some 0 \<and>
   Transfer_save \<lparr>t_pk = None, t_user = 1, from_account = 3, to_account = 1, t_amount = 5000000\<rparr> sample_db =
     (None, sample_db\<lparr>accounts := adjust_balance 1 5000000 (adjust_balance 3 (- 5000000) (accounts sample_db)),
        transfers := transfers sample_db @
          [(2, \<lparr>t_pk = Some 2, t_user = 1, from_account = 3, to_account = 1, t_amount = 5000000\<rparr>)]\<rparr>) \<and>
   balance_of 3 (snd (Transfer_save \<lparr>t_pk = None, t_user = 1, from_account = 3, to_account = 1, t_amount = 5000000\<rparr> sample_db))
     = Some (- 5000000) \<and>
   fst (Transfer_save \<lparr>t_pk = Some 1, t_user = 1, from_account = 1, to_account = 2, t_amount = 1000\<rparr> sample_db) = None \<and>
   balance_of 1 (prior_reversed \<lparr>t_pk = Some 1, t_user = 1, from_account = 1, to_account = 2, t_amount = 1000\<rparr> sample_db)
     = Some 1000"
  using system_account_skips_funds_check
    [of "\<lparr>t_pk = None, t_user = 1, from_account = 3, to_account = 1, t_amount = 5000000\<rparr>" sample_db
        "\<lparr>t_pk = Some 1, t_user = 1, from_account = 1, to_account = 2, t_amount = 1000\<rparr>" sample_db]
  by (simp add: sample_eval Transfer_save_def Transfer_save_body_def Transfer_full_clean_def Transfer_clean_def
      Transfer_super_save_def prior_reversed_def balances_in_field_def)

text \<open>
  The claim as worded, any positive amount, is more than the amount column carries: from the
  external account of the sample database, which validation otherwise allows to send to the
  checking account, 100000000.00 is refused by the ten digits of the field.
\<close>

theorem system_account_amount_beyond_field:
  "map_option is_system (get_row 3 (accounts sample_db)) = Some True \<and>
   fst (Transfer_save \<lparr>t_pk = None, t_user = 1, from_account = 3, to_account = 1, t_amount = 9999999999\<rparr> sample_db) = None \<and>
   Transfer_save \<lparr>t_pk = None, t_user = 1, from_account = 3, to_account = 1, t_amount = 10000000000\<rparr> sample_db =
     (Some (ValidationError ''amount'' ''Ensure that there are no more than 10 digits in total.''), sample_db)"
  by (simp add: sample_eval Transfer_save_def Transfer_save_body_def Transfer_full_clean_def Transfer_clean_def
      Transfer_super_save_def)

lemma accounts_Transfer_super_save [simp]: "accounts (Transfer_super_save t s) = accounts s"
  by (simp add: Transfer_super_save_def)

lemma transfers_apply_effect [simp]: "transfers (apply_effect t s) = transfers s"
  by (simp add: apply_effect_def adjust_def)

lemma transfers_reverse_effect [simp]: "transfers (reverse_effect t s) = transfers s"
  by (simp add: reverse_effect_def adjust_def)

lemma balance_of_reverse_effect_from:
  "from_account p \<noteq> to_account p \<Longrightarrow>
   balance_of (from_account p) (reverse_effect p s) =
     map_option (\<lambda>b. b + t_amount p) (balance_of (from_account p) s)"
  by (simp add: reverse_effect_def balance_of_adjust)

lemma Transfer_update_vs_recreate:
  assumes pk: "t_pk t = Some k" and row: "get_row k (transfers s) = Some p"
  defines "sd \<equiv> (reverse_effect p s)\<lparr>transfers := delete_row k (transfers s)\<rparr>"
  defines "t0 \<equiv> t\<lparr>t_pk := None\<rparr>"
  shows "fst (Transfer_save t s) = fst (Transfer_save t0 sd)"
    and "fst (Transfer_save t s) = None \<Longrightarrow>
           snd (Transfer_save t s) = Transfer_super_save t (apply_effect t (reverse_effect p s)) \<and>
           accounts (snd (Transfer_save t0 sd)) = accounts (apply_effect t (reverse_effect p s))"
proof -
  have fc: "Transfer_full_clean t0 sd = Transfer_full_clean t s"
    by (rule Transfer_full_clean_cong) (simp_all add: sd_def t0_def)
  have acc: "accounts sd = accounts (reverse_effect p s)"
    by (simp add: sd_def)
  have lk: "length (filter (\<lambda>(i, a). i = from_account t \<or> i = to_account t) (accounts sd)) =
            length (filter (\<lambda>(i, a). i = from_account t \<or> i = to_account t) (accounts s))"
    unfolding acc by (rule locked_reverse_effect)
  have pr: "prior_reversed t s = reverse_effect p s"
    using pk row by (simp add: prior_reversed_def)
  have pr0: "prior_reversed t0 sd = sd"
    by (simp add: prior_reversed_def t0_def)
  have st: "\<not> (case t_pk t of None \<Rightarrow> False | Some k \<Rightarrow> get_row k (transfers s) = None)"
    using pk row by simp
  have f0: "from_account t0 = from_account t" "to_account t0 = to_account t"
    "t_amount t0 = t_amount t" "t_pk t0 = None"
    by (simp_all add: t0_def)
  have ae: "accounts (apply_effect t0 sd) = accounts (apply_effect t (reverse_effect p s))"
    by (simp add: apply_effect_def adjust_def f0 acc)
  show "fst (Transfer_save t s) = fst (Transfer_save t0 sd)"
    using st
    by (simp add: Transfer_save_unfold [of t s] Transfer_save_unfold [of t0 sd] fc pr pr0 f0 acc
        locked_reverse_effect split: option.splits)
  then have same: "fst (Transfer_save t s) = fst (Transfer_save t0 sd)" .
  show "snd (Transfer_save t s) = Transfer_super_save t (apply_effect t (reverse_effect p s)) \<and>
        accounts (snd (Transfer_save t0 sd)) = accounts (apply_effect t (reverse_effect p s))"
    if ok: "fst (Transfer_save t s) = None"
  proof
    show "snd (Transfer_save t s) = Transfer_super_save t (apply_effect t (reverse_effect p s))"
      using Transfer_save_okD(3) [OF ok] by (simp only: pr)
    have "fst (Transfer_save t0 sd) = None" using ok same by simp
    then have "snd (Transfer_save t0 sd) = Transfer_super_save t0 (apply_effect t0 sd)"
      using Transfer_save_okD(3) [of t0 sd] by (simp only: pr0)
    then show "accounts (snd (Transfer_save t0 sd)) = accounts (apply_effect t (reverse_effect p s))"
      by (simp add: ae)
  qed
qed

lemma save_row_stored:
  "has_row k tbl \<Longrightarrow> save_row (Some k) inst tbl = update_row k (inst k) tbl"
  by (simp add: save_row_def)


subsection \<open>The transfer update in figures\<close>

lemma account_after_reversal:
  "get_row j (accounts (reverse_effect p s)) =
     map_option (\<lambda>a. a\<lparr>balance := balance a + (if j = from_account p then t_amount p else 0)
                                      - (if j = to_account p then t_amount p else 0)\<rparr>)
       (get_row j (accounts s))"
  by (cases "get_row j (accounts s)")
    (auto simp: reverse_effect_def adjust_def get_row_adjust_balance)

lemma balance_after_update:
  "balance_of j (apply_effect t (reverse_effect p s)) =
     map_option (\<lambda>b. b + (if j = from_account p then t_amount p else 0)
                      - (if j = to_account p then t_amount p else 0)
                      - (if j = from_account t then t_amount t else 0)
                      + (if j = to_account t then t_amount t else 0)) (balance_of j s)"
  by (cases "balance_of j s")
    (auto simp: apply_effect_def reverse_effect_def balance_of_adjust)

lemma accounts_after_update:
  "accounts (apply_effect t (reverse_effect p s)) =
     adjust_balance (to_account t) (t_amount t) (adjust_balance (from_account t) (- t_amount t)
       (adjust_balance (to_account p) (- t_amount p)
          (adjust_balance (from_account p) (t_amount p) (accounts s))))"
  by (simp add: apply_effect_def reverse_effect_def adjust_def)

lemma full_clean_not_insufficient: "Transfer_full_clean t s \<noteq> Some insufficient_funds"
  by (simp add: Transfer_full_clean_def Transfer_clean_def insufficient_funds_def
      split: option.splits)

lemma Transfer_save_insufficientD:
  assumes "fst (Transfer_save t s) = Some insufficient_funds"
  shows "\<exists>fa. get_row (from_account t) (accounts (prior_reversed t s)) = Some fa \<and>
              \<not> is_system fa \<and> balance fa < t_amount t"
  using assms full_clean_not_insufficient [of t s]
  by (auto simp: Transfer_save_unfold insufficient_funds_def split: option.splits if_splits)


text \<open>
  C3. A successful update of a stored transfer leaves every account at its balance with the
  stored amount credited back to the stored from-account and taken back from the stored
  to-account, and the new amount taken from the new from-account and given to the new
  to-account: the accounts as they are once the stored transfer is deleted, with the new
  effect on top. The funds check sees the from-account with the stored effect undone: a
  successful update had the funds on that basis, and an update is refused for lack of funds
  only when the new amount exceeds the balance so corrected. With the same from-account an
  amount up to the present balance plus the stored amount is accepted, in a database whose
  balances stay within the balance column.
\<close>

theorem Transfer_update_reverses_then_applies:
  "(t_pk t = Some k \<and> get_row k (transfers s) = Some p \<and> fst (Transfer_save t s) = None \<longrightarrow>
      accounts (snd (Transfer_save t s)) =
        adjust_balance (to_account t) (t_amount t) (adjust_balance (from_account t) (- t_amount t)
          (adjust_balance (to_account p) (- t_amount p)
             (adjust_balance (from_account p) (t_amount p) (accounts s)))) \<and>
      balance_of j (snd (Transfer_save t s)) =
        map_option (\<lambda>b. b + (if j = from_account p then t_amount p else 0)
                         - (if j = to_account p then t_amount p else 0)
                         - (if j = from_account t then t_amount t else 0)
                         + (if j = to_account t then t_amount t else 0)) (balance_of j s) \<and>
      accounts (snd (Transfer_save t s)) =
        adjust_balance (to_account t) (t_amount t) (adjust_balance (from_account t) (- t_amount t)
          (accounts (snd (Transfer_delete (p\<lparr>t_pk := Some k\<rparr>) s)))) \<and>
      transfers (snd (Transfer_save t s)) = update_row k (t\<lparr>t_pk := Some k\<rparr>) (transfers s) \<and>
      (case get_row (from_account t) (accounts s) of
         None \<Rightarrow> False
       | Some fa \<Rightarrow>
           is_system fa \<or>
           t_amount t \<le> balance fa + (if from_account t = from_account p then t_amount p else 0)
                                   - (if from_account t = to_account p then t_amount p else 0))) \<and>
   (t_pk t' = Some k' \<and> get_row k' (transfers s') = Some p' \<and>
    fst (Transfer_save t' s') = Some insufficient_funds \<longrightarrow>
      (case get_row (from_account t') (accounts s') of
         None \<Rightarrow> False
       | Some fa \<Rightarrow>
           \<not> is_system fa \<and>
           balance fa + (if from_account t' = from_account p' then t_amount p' else 0)
                      - (if from_account t' = to_account p' then t_amount p' else 0) < t_amount t')) \<and>
   (t_pk u = Some ku \<and> get_row ku (transfers su) = Some pu \<and>
    Transfer_full_clean u su = None \<and> distinct (map fst (accounts su)) \<and>
    from_account u = from_account pu \<and> from_account pu \<noteq> to_account pu \<and>
    balance_of (from_account u) su = Some b \<and> t_amount u \<le> b + t_amount pu \<and>
    balances_in_field su \<and> balances_in_field (reverse_effect pu su) \<and>
    balances_in_field (apply_effect u (reverse_effect pu su)) \<longrightarrow>
      fst (Transfer_save u su) = None)"
proof (intro conjI impI)
  assume a: "t_pk t = Some k \<and> get_row k (transfers s) = Some p \<and> fst (Transfer_save t s) = None"
  then have pk: "t_pk t = Some k" and row: "get_row k (transfers s) = Some p"
    and ok: "fst (Transfer_save t s) = None"
    by simp_all
  have pr: "prior_reversed t s = reverse_effect p s"
    using pk row by (simp add: prior_reversed_def)
  have r: "snd (Transfer_save t s) = Transfer_super_save t (apply_effect t (reverse_effect p s))"
    using Transfer_save_okD(3) [OF ok] by (simp only: pr)
  show "accounts (snd (Transfer_save t s)) =
        adjust_balance (to_account t) (t_amount t) (adjust_balance (from_account t) (- t_amount t)
          (adjust_balance (to_account p) (- t_amount p)
             (adjust_balance (from_account p) (t_amount p) (accounts s))))"
    by (simp add: r accounts_after_update)
  show "balance_of j (snd (Transfer_save t s)) =
        map_option (\<lambda>b. b + (if j = from_account p then t_amount p else 0)
                         - (if j = to_account p then t_amount p else 0)
                         - (if j = from_account t then t_amount t else 0)
                         + (if j = to_account t then t_amount t else 0)) (balance_of j s)"
    by (simp only: r balance_of_Transfer_super_save balance_after_update)
  have d: "accounts (snd (Transfer_delete (p\<lparr>t_pk := Some k\<rparr>) s)) =
           adjust_balance (to_account p) (- t_amount p)
             (adjust_balance (from_account p) (t_amount p) (accounts s))"
    using row by (simp add: Transfer_delete_stored reverse_effect_def adjust_def)
  show "accounts (snd (Transfer_save t s)) =
        adjust_balance (to_account t) (t_amount t) (adjust_balance (from_account t) (- t_amount t)
          (accounts (snd (Transfer_delete (p\<lparr>t_pk := Some k\<rparr>) s))))"
    by (simp only: d) (simp add: r accounts_after_update)
  have "has_row k (transfers s)" using row by (rule get_row_has_row)
  then show "transfers (snd (Transfer_save t s)) = update_row k (t\<lparr>t_pk := Some k\<rparr>) (transfers s)"
    using pk by (simp add: r Transfer_super_save_def save_row_stored)
  obtain fa' where fa': "get_row (from_account t) (accounts (reverse_effect p s)) = Some fa'"
      "is_system fa' \<or> t_amount t \<le> balance fa'"
    using Transfer_save_okD(2) [OF ok] by (auto simp: pr)
  then show "case get_row (from_account t) (accounts s) of
         None \<Rightarrow> False
       | Some fa \<Rightarrow>
           is_system fa \<or>
           t_amount t \<le> balance fa + (if from_account t = from_account p then t_amount p else 0)
                                   - (if from_account t = to_account p then t_amount p else 0)"
    by (cases "get_row (from_account t) (accounts s)") (auto simp: account_after_reversal)
next
  assume a: "t_pk t' = Some k' \<and> get_row k' (transfers s') = Some p' \<and>
    fst (Transfer_save t' s') = Some insufficient_funds"
  then have pr: "prior_reversed t' s' = reverse_effect p' s'"
    by (simp add: prior_reversed_def)
  obtain fa' where fa': "get_row (from_account t') (accounts (reverse_effect p' s')) = Some fa'"
      "\<not> is_system fa'" "balance fa' < t_amount t'"
    using Transfer_save_insufficientD [of t' s'] a by (auto simp: pr)
  then show "case get_row (from_account t') (accounts s') of
         None \<Rightarrow> False
       | Some fa \<Rightarrow>
           \<not> is_system fa \<and>
           balance fa + (if from_account t' = from_account p' then t_amount p' else 0)
                      - (if from_account t' = to_account p' then t_amount p' else 0) < t_amount t'"
    by (cases "get_row (from_account t') (accounts s')") (auto simp: account_after_reversal)
next
  assume a: "t_pk u = Some ku \<and> get_row ku (transfers su) = Some pu \<and>
    Transfer_full_clean u su = None \<and> distinct (map fst (accounts su)) \<and>
    from_account u = from_account pu \<and> from_account pu \<noteq> to_account pu \<and>
    balance_of (from_account u) su = Some b \<and> t_amount u \<le> b + t_amount pu \<and>
    balances_in_field su \<and> balances_in_field (reverse_effect pu su) \<and>
    balances_in_field (apply_effect u (reverse_effect pu su))"
  then have pk: "t_pk u = Some ku" and row: "get_row ku (transfers su) = Some pu"
    and fc: "Transfer_full_clean u su = None" and dk: "distinct (map fst (accounts su))"
    and fr: "from_account u = from_account pu" and ne: "from_account pu \<noteq> to_account pu"
    and bal: "balance_of (from_account pu) su = Some b" and le: "t_amount u \<le> b + t_amount pu"
    by auto
  have l: "length (filter (\<lambda>(i, a). i = from_account u \<or> i = to_account u) (accounts su)) = 2"
    using fc dk by (rule locked_both)
  have pr: "prior_reversed u su = reverse_effect pu su"
    using pk row by (simp add: prior_reversed_def)
  have "balance_of (from_account pu) (reverse_effect pu su) = Some (b + t_amount pu)"
    using balance_of_reverse_effect_from [OF ne, of su] by (simp add: bal)
  then obtain fa where fa: "get_row (from_account u) (accounts (reverse_effect pu su)) = Some fa"
      "balance fa = b + t_amount pu"
    by (auto simp: balance_of_def fr)
  show "fst (Transfer_save u su) = None"
    using fc l pk row fa le by (simp add: Transfer_save_unfold pr)
qed

theorem Transfer_update_reverses_then_applies_witness:
  "balance_of 1 sample_db = Some 700 \<and> balance_of 2 sample_db = Some 500 \<and>
   fst (Transfer_save \<lparr>t_pk = Some 1, t_user = 1, from_account = 1, to_account = 2, t_amount = 1000\<rparr> sample_db) = None \<and>
   balance_of 1 (snd (Transfer_save \<lparr>t_pk = Some 1, t_user = 1, from_account = 1, to_account = 2, t_amount = 1000\<rparr> sample_db)) = Some 0 \<and>
   balance_of 2 (snd (Transfer_save \<lparr>t_pk = Some 1, t_user = 1, from_account = 1, to_account = 2, t_amount = 1000\<rparr> sample_db)) = Some 1200 \<and>
   Transfer_save \<lparr>t_pk = Some 1, t_user = 1, from_account = 1, to_account = 2, t_amount = 1001\<rparr> sample_db =
     (Some insufficient_funds, sample_db)"
  using Transfer_update_reverses_then_applies
    [of "\<lparr>t_pk = Some 1, t_user = 1, from_account = 1, to_account = 2, t_amount = 1000\<rparr>" 1 sample_db
        "\<lparr>t_pk = Some 1, t_user = 1, from_account = 1, to_account = 2, t_amount = 300\<rparr>" 1
        "\<lparr>t_pk = Some 1, t_user = 1, from_account = 1, to_account = 2, t_amount = 1001\<rparr>" 1 sample_db
        "\<lparr>t_pk = Some 1, t_user = 1, from_account = 1, to_account = 2, t_amount = 300\<rparr>"
        "\<lparr>t_pk = Some 1, t_user = 1, from_account = 1, to_account = 2, t_amount = 1000\<rparr>" 1 sample_db
        "\<lparr>t_pk = Some 1, t_user = 1, from_account = 1, to_account = 2, t_amount = 300\<rparr>" 700]
    Transfer_update_reverses_then_applies
    [of "\<lparr>t_pk = Some 1, t_user = 1, from_account = 1, to_account = 2, t_amount = 1000\<rparr>" 1 sample_db
        "\<lparr>t_pk = Some 1, t_user = 1, from_account = 1, to_account = 2, t_amount = 300\<rparr>" 2
        "\<lparr>t_pk = Some 1, t_user = 1, from_account = 1, to_account = 2, t_amount = 1001\<rparr>" 1 sample_db
        "\<lparr>t_pk = Some 1, t_user = 1, from_account = 1, to_account = 2, t_amount = 300\<rparr>"
        "\<lparr>t_pk = Some 1, t_user = 1, from_account = 1, to_account = 2, t_amount = 1000\<rparr>" 1 sample_db
        "\<lparr>t_pk = Some 1, t_user = 1, from_account = 1, to_account = 2, t_amount = 300\<rparr>" 700]
  by (simp add: sample_eval Transfer_save_def Transfer_save_body_def Transfer_full_clean_def Transfer_clean_def
      Transfer_super_save_def Transfer_delete_def Transfer_delete_body_def balances_in_field_def)

lemma list_all_save_row:
  assumes "list_all (\<lambda>(k, r). P r) tbl" and "\<And>k. P (inst k)"
  shows "list_all (\<lambda>(k, r). P r) (save_row pk inst tbl)"
  using assms
  by (cases pk) (force simp: save_row_def update_row_def list_all_iff split: if_splits)+

lemma list_all_delete_row:
  "list_all Q tbl \<Longrightarrow> list_all Q (delete_row k tbl)"
  by (simp add: delete_row_def list_all_iff)

lemma transfers_owned_alt:
  "transfers_owned s = list_all (\<lambda>(k, t). owned_row s t) (transfers s)"
  by (simp add: transfers_owned_def owned_row_def)

lemma owned_row_cong: "(\<And>j. owner_of j s' = owner_of j s) \<Longrightarrow> owned_row s' = owned_row s"
  by (simp add: owned_row_def fun_eq_iff)

lemma owned_row_pk [simp]: "owned_row s (t\<lparr>t_pk := x\<rparr>) = owned_row s t"
  by (simp add: owned_row_def)

lemma Transfer_save_owned:
  assumes "fst (Transfer_save t s) = None"
  shows "owned_row s t"
  using Transfer_full_clean_NoneD(3,4) [OF Transfer_save_okD(1) [OF assms]]
  by (auto simp: owned_row_def owner_of_def)

lemma owner_of_Transfer_super_save [simp]: "owner_of j (Transfer_super_save t s) = owner_of j s"
  by (simp add: Transfer_super_save_def)

lemma transfers_owned_Transfer_save:
  assumes "transfers_owned s"
  shows "transfers_owned (snd (Transfer_save t s))"
proof (cases "fst (Transfer_save t s) = None")
  case True
  let ?s' = "Transfer_super_save t (apply_effect t (prior_reversed t s))"
  have r: "snd (Transfer_save t s) = ?s'"
    using True by (rule Transfer_save_okD(3))
  have o: "owned_row ?s' = owned_row s"
    by (rule owned_row_cong) simp
  have tp: "transfers (prior_reversed t s) = transfers s"
    by (simp add: prior_reversed_def split: option.splits)
  have ts: "transfers ?s' = save_row (t_pk t) (\<lambda>k. t\<lparr>t_pk := Some k\<rparr>) (transfers s)"
    by (simp add: Transfer_super_save_def tp)
  have "list_all (\<lambda>(k, r). owned_row s r) (save_row (t_pk t) (\<lambda>k. t\<lparr>t_pk := Some k\<rparr>) (transfers s))"
    using assms Transfer_save_owned [OF True]
    by (intro list_all_save_row) (simp_all add: transfers_owned_alt)
  then show ?thesis
    by (simp only: r transfers_owned_alt o ts)
next
  case False
  then show ?thesis using assms by (simp add: Transfer_save_failure)
qed

lemma transfers_owned_Transfer_delete:
  assumes "transfers_owned s"
  shows "transfers_owned (snd (Transfer_delete t s))"
proof (cases "fst (Transfer_delete t s) = None")
  case True
  then obtain k p where r: "snd (Transfer_delete t s) = (reverse_effect p s)\<lparr>transfers := delete_row k (transfers s)\<rparr>"
    by (auto simp: Transfer_delete_def Transfer_delete_body_def atomic_def split: option.splits)
  have o: "owned_row ((reverse_effect p s)\<lparr>transfers := delete_row k (transfers s)\<rparr>) = owned_row s"
    by (rule owned_row_cong) simp
  show ?thesis
    using assms by (simp add: r transfers_owned_alt o list_all_delete_row)
next
  case False
  then show ?thesis using assms by (simp add: Transfer_delete_def atomic_failure)
qed

lemma other_saves_keep_transfers:
  "transfers (snd (Expense_save e s)) = transfers s \<and> owner_of j (snd (Expense_save e s)) = owner_of j s"
  "transfers (snd (Income_save i s)) = transfers s \<and> owner_of j (snd (Income_save i s)) = owner_of j s"
  "transfers (snd (Expense_delete e s)) = transfers s \<and> owner_of j (snd (Expense_delete e s)) = owner_of j s"
  "transfers (snd (Income_delete i s)) = transfers s \<and> owner_of j (snd (Income_delete i s)) = owner_of j s"
  by (auto simp: Expense_save_def Expense_save_body_def Expense_super_save_def
      Income_save_def Income_save_body_def Income_super_save_def
      Expense_delete_def Expense_delete_body_def Income_delete_def Income_delete_body_def
      atomic_def adjust_def Let_def owner_of_def get_row_adjust_balance option.map_comp comp_def
      split: option.splits)

lemma transfers_owned_cong:
  assumes "transfers s' = transfers s" and "\<And>j. owner_of j s' = owner_of j s"
  shows "transfers_owned s' = transfers_owned s"
  using assms by (simp add: transfers_owned_def)

lemma transfers_owned_perform:
  assumes "transfers_owned s"
  shows "transfers_owned (snd (perform m s))"
proof (cases m)
  case (SaveExpense e)
  then show ?thesis using assms
    by (simp add: transfers_owned_cong [of "snd (Expense_save e s)" s] other_saves_keep_transfers)
next
  case (DeleteExpense k)
  then show ?thesis using assms
    by (simp add: transfers_owned_cong [of "snd (Expense_delete _ s)" s] other_saves_keep_transfers
        split: option.splits)
next
  case (SaveIncome i)
  then show ?thesis using assms
    by (simp add: transfers_owned_cong [of "snd (Income_save i s)" s] other_saves_keep_transfers)
next
  case (DeleteIncome k)
  then show ?thesis using assms
    by (simp add: transfers_owned_cong [of "snd (Income_delete _ s)" s] other_saves_keep_transfers
        split: option.splits)
next
  case (SaveTransfer t)
  then show ?thesis using assms by (simp add: transfers_owned_Transfer_save)
next
  case (DeleteTransfer k)
  then show ?thesis using assms
    by (simp add: transfers_owned_Transfer_delete split: option.splits)
qed


lemma TransferSerializer_validate_owned:
  assumes "TransferSerializer_validate user allow_system inst attrs = None"
  shows "case or_else (attr_from attrs) (case inst of None \<Rightarrow> None | Some i \<Rightarrow> attr_from i) of
           None \<Rightarrow> inst \<noteq> None | Some f \<Rightarrow> a_user (snd f) = user"
    and "case or_else (attr_to attrs) (case inst of None \<Rightarrow> None | Some i \<Rightarrow> attr_to i) of
           None \<Rightarrow> inst \<noteq> None | Some g \<Rightarrow> a_user (snd g) = user"
  using assms
  by (auto simp: TransferSerializer_validate_def Let_def split: if_splits option.splits)

text \<open>
  C10. The accounts of a transfer belong to the transfer's user. The serializer accepts a
  request only when each account it names belongs to the requesting user, with or without
  the flag that allows a system account; a save goes through only when both accounts
  belong to the transfer's user, and a transfer naming another user's account is rejected
  with the database unchanged. So every stored transfer row names accounts of its own
  user, and every mutation keeps it so.
\<close>

theorem transfer_accounts_same_user:
  "(TransferSerializer_validate user allow_system inst attrs = None \<longrightarrow>
      (case or_else (attr_from attrs) (case inst of None \<Rightarrow> None | Some i \<Rightarrow> attr_from i) of
         None \<Rightarrow> inst \<noteq> None | Some f \<Rightarrow> a_user (snd f) = user) \<and>
      (case or_else (attr_to attrs) (case inst of None \<Rightarrow> None | Some i \<Rightarrow> attr_to i) of
         None \<Rightarrow> inst \<noteq> None | Some g \<Rightarrow> a_user (snd g) = user)) \<and>
   (fst (Transfer_save t s) = None \<longrightarrow>
      owner_of (from_account t) s = Some (t_user t) \<and>
      owner_of (to_account t) s = Some (t_user t)) \<and>
   (owner_of (from_account t') s' \<noteq> Some (t_user t') \<or>
    owner_of (to_account t') s' \<noteq> Some (t_user t') \<longrightarrow>
      fst (Transfer_save t' s') \<noteq> None \<and> snd (Transfer_save t' s') = s') \<and>
   (transfers_owned s'' \<longrightarrow> transfers_owned (snd (perform m s'')))"
proof (intro conjI impI)
  assume v: "TransferSerializer_validate user allow_system inst attrs = None"
  show "case or_else (attr_from attrs) (case inst of None \<Rightarrow> None | Some i \<Rightarrow> attr_from i) of
         None \<Rightarrow> inst \<noteq> None | Some f \<Rightarrow> a_user (snd f) = user"
    using v by (rule TransferSerializer_validate_owned)
  show "case or_else (attr_to attrs) (case inst of None \<Rightarrow> None | Some i \<Rightarrow> attr_to i) of
         None \<Rightarrow> inst \<noteq> None | Some g \<Rightarrow> a_user (snd g) = user"
    using v by (rule TransferSerializer_validate_owned)
next
  assume "fst (Transfer_save t s) = None"
  then have o: "owned_row s t" by (rule Transfer_save_owned)
  show "owner_of (from_account t) s = Some (t_user t)" using o by (simp add: owned_row_def)
  show "owner_of (to_account t) s = Some (t_user t)" using o by (simp add: owned_row_def)
next
  assume n: "owner_of (from_account t') s' \<noteq> Some (t_user t') \<or>
    owner_of (to_account t') s' \<noteq> Some (t_user t')"
  show f: "fst (Transfer_save t' s') \<noteq> None"
  proof
    assume "fst (Transfer_save t' s') = None"
    then have "owned_row s' t'" by (rule Transfer_save_owned)
    then show False using n by (simp add: owned_row_def)
  qed
  then show "snd (Transfer_save t' s') = s'" by (rule Transfer_save_failure)
next
  assume "transfers_owned s''"
  then show "transfers_owned (snd (perform m s''))" by (rule transfers_owned_perform)
qed

theorem transfer_accounts_same_user_witness:
  "TransferSerializer_validate 1 True None
     \<lparr>attr_from = Some (3, \<lparr>a_user = 1, a_name = ''External (System)'', balance = 0, is_system = True\<rparr>),
      attr_to = Some (1, \<lparr>a_user = 1, a_name = ''Checking'', balance = 700, is_system = False\<rparr>),
      attr_amount = Some 100\<rparr> = None \<and>
   TransferSerializer_validate 1 True None
     \<lparr>attr_from = Some (9, \<lparr>a_user = 2, a_name = ''External (System)'', balance = 0, is_system = True\<rparr>),
      attr_to = Some (1, \<lparr>a_user = 1, a_name = ''Checking'', balance = 700, is_system = False\<rparr>),
      attr_amount = Some 100\<rparr> = Some (ValidationError ''from_account'' ''Account does not belong to you.'') \<and>
   fst (Transfer_save \<lparr>t_pk = None, t_user = 1, from_account = 3, to_account = 1, t_amount = 100\<rparr> sample_db) = None \<and>
   Transfer_save \<lparr>t_pk = None, t_user = 2, from_account = 1, to_account = 2, t_amount = 100\<rparr> sample_db =
     (Some (ValidationError ''from_account'' ''Account must belong to the same user.''), sample_db) \<and>
   transfers_owned sample_db \<and>
   transfers_owned (snd (perform (SaveTransfer \<lparr>t_pk = None, t_user = 1, from_account = 3, to_account = 1, t_amount = 100\<rparr>) sample_db))"
  using transfer_accounts_same_user
    [of 1 True None
        "\<lparr>attr_from = Some (3, \<lparr>a_user = 1, a_name = ''External (System)'', balance = 0, is_system = True\<rparr>),
          attr_to = Some (1, \<lparr>a_user = 1, a_name = ''Checking'', balance = 700, is_system = False\<rparr>),
          attr_amount = Some 100\<rparr>"
        "\<lparr>t_pk = None, t_user = 1, from_account = 3, to_account = 1, t_amount = 100\<rparr>" sample_db
        "\<lparr>t_pk = None, t_user = 2, from_account = 1, to_account = 2, t_amount = 100\<rparr>" sample_db
        sample_db "SaveTransfer \<lparr>t_pk = None, t_user = 1, from_account = 3, to_account = 1, t_amount = 100\<rparr>"]
  by (simp add: sample_eval TransferSerializer_validate_def or_else_def owner_of_def transfers_owned_def
      Transfer_save_def Transfer_save_body_def Transfer_full_clean_def Transfer_clean_def Transfer_super_save_def)


subsection \<open>Sums over a table under insert, update and delete\<close>

lemma total_Nil [simp]: "total acct amt a [] = 0"
  by (simp add: total_def)

lemma total_Cons [simp]:
  "total acct amt a ((k, r) # tbl) = (if acct r = a then amt r else 0) + total acct amt a tbl"
  by (simp add: total_def)

lemma total_append:
  "total acct amt a (tbl @ [(k, r)]) = total acct amt a tbl + (if acct r = a then amt r else 0)"
  by (simp add: total_def)

lemma update_row_absent: "\<not> has_row k tbl \<Longrightarrow> update_row k r tbl = tbl"
  by (induction tbl) (auto simp: update_row_def has_row_def)

lemma delete_row_absent: "\<not> has_row k tbl \<Longrightarrow> delete_row k tbl = tbl"
  by (induction tbl) (auto simp: delete_row_def has_row_def)

lemma has_row_Cons [simp]: "has_row k ((i, x) # tbl) \<longleftrightarrow> k = i \<or> has_row k tbl"
  by (auto simp: has_row_def)

lemma get_row_Cons [simp]: "get_row k ((i, x) # tbl) = (if k = i then Some x else get_row k tbl)"
  by (simp add: get_row_def)

lemma update_row_Cons [simp]:
  "update_row k r ((i, x) # tbl) = (if i = k then (i, r) else (i, x)) # update_row k r tbl"
  by (simp add: update_row_def)

lemma delete_row_Cons [simp]:
  "delete_row k ((i, x) # tbl) = (if i = k then delete_row k tbl else (i, x) # delete_row k tbl)"
  by (simp add: delete_row_def)

lemma total_update_row:
  assumes "distinct (map fst tbl)" and "get_row k tbl = Some old"
  shows "total acct amt a (update_row k r tbl) =
           total acct amt a tbl - (if acct old = a then amt old else 0)
             + (if acct r = a then amt r else 0)"
  using assms
proof (induction tbl)
  case Nil
  then show ?case by (simp add: get_row_def)
next
  case (Cons row tbl)
  obtain i x where row: "row = (i, x)" by (cases row)
  show ?case
  proof (cases "k = i")
    case True
    then have "\<not> has_row k tbl" using Cons.prems(1) by (simp add: row has_row_def)
    then show ?thesis using True Cons.prems(2) by (simp add: row update_row_absent)
  next
    case False
    then show ?thesis using Cons by (simp add: row)
  qed
qed

lemma total_delete_row:
  assumes "distinct (map fst tbl)" and "get_row k tbl = Some old"
  shows "total acct amt a (delete_row k tbl) =
           total acct amt a tbl - (if acct old = a then amt old else 0)"
  using assms
proof (induction tbl)
  case Nil
  then show ?case by (simp add: get_row_def)
next
  case (Cons row tbl)
  obtain i x where row: "row = (i, x)" by (cases row)
  show ?case
  proof (cases "k = i")
    case True
    then have "\<not> has_row k tbl" using Cons.prems(1) by (simp add: row has_row_def)
    then show ?thesis using True Cons.prems(2) by (simp add: row delete_row_absent)
  next
    case False
    then show ?thesis using Cons by (simp add: row)
  qed
qed

subsection \<open>Primary keys stay unique\<close>

lemma keys_update_row [simp]: "map fst (update_row k r tbl) = map fst tbl"
  by (induction tbl) (auto simp: update_row_def)

lemma distinct_delete_row: "distinct (map fst tbl) \<Longrightarrow> distinct (map fst (delete_row k tbl))"
  by (simp add: delete_row_def distinct_map_filter)

lemma distinct_save_row:
  "distinct (map fst tbl) \<Longrightarrow> distinct (map fst (save_row pk inst tbl))"
  using fresh_pk_new [of tbl]
  by (cases pk) (auto simp: save_row_def has_row_def)

subsection \<open>Balances against a target\<close>

lemma balances_match_adjust:
  "balances_match f (adjust_balance k d accs) =
   balances_match (\<lambda>a. f a - (if a = k then d else 0)) accs"
  by (induction accs) (auto simp: balances_match_def adjust_balance_def bump_def)

lemma balances_match_cong:
  "(\<And>a. f a = g a) \<Longrightarrow> balances_match f accs = balances_match g accs"
  by (simp add: balances_match_def)

lemma balances_consistent_alt:
  "balances_consistent s = balances_match (\<lambda>a. ledger_balance a s) (accounts s)"
  by (simp add: balances_consistent_def balances_match_def)


lemma balances_match_adjusts:
  "balances_match f (foldr (\<lambda>(k, d). adjust_balance k d) adjs accs) =
   balances_match (\<lambda>a. f a - (\<Sum>(k, d)\<leftarrow>adjs. if a = k then d else 0)) accs"
proof (induction adjs arbitrary: f)
  case Nil
  show ?case by simp
next
  case (Cons kd adjs)
  obtain k d where kd: "kd = (k, d)" by (cases kd)
  have "balances_match f (foldr (\<lambda>(k, d). adjust_balance k d) (kd # adjs) accs) =
        balances_match (\<lambda>a. f a - (if a = k then d else 0))
          (foldr (\<lambda>(k, d). adjust_balance k d) adjs accs)"
    by (simp add: kd balances_match_adjust)
  also have "\<dots> = balances_match
      (\<lambda>a. f a - (if a = k then d else 0) - (\<Sum>(k, d)\<leftarrow>adjs. if a = k then d else 0)) accs"
    by (rule Cons.IH)
  also have "\<dots> = balances_match (\<lambda>a. f a - (\<Sum>(k, d)\<leftarrow>kd # adjs. if a = k then d else 0)) accs"
    by (rule balances_match_cong) (simp add: kd)
  finally show ?case .
qed

lemma consistent_after_adjusts:
  assumes "balances_consistent s"
    and "accounts s' = foldr (\<lambda>(k, d). adjust_balance k d) adjs (accounts s)"
    and "\<And>a. ledger_balance a s' = ledger_balance a s + (\<Sum>(k, d)\<leftarrow>adjs. if a = k then d else 0)"
  shows "balances_consistent s'"
proof -
  have "balances_consistent s' =
        balances_match (\<lambda>a. ledger_balance a s' - (\<Sum>(k, d)\<leftarrow>adjs. if a = k then d else 0)) (accounts s)"
    by (simp only: balances_consistent_alt assms(2) balances_match_adjusts)
  also have "\<dots> = balances_match (\<lambda>a. ledger_balance a s) (accounts s)"
    by (rule balances_match_cong) (simp add: assms(3))
  finally show ?thesis using assms(1) by (simp add: balances_consistent_alt)
qed

lemma adjust_fields [simp]:
  "accounts (adjust k d s) = adjust_balance k d (accounts s)"
  "expenses (adjust k d s) = expenses s"
  "incomes (adjust k d s) = incomes s"
  "transfers (adjust k d s) = transfers s"
  "categories (adjust k d s) = categories s"
  by (simp_all add: adjust_def)

subsection \<open>Expenses\<close>

lemma Expense_save_unfold:
  "Expense_save e s =
     (case Expense_full_clean e s of
        Some er \<Rightarrow> (Some er, s)
      | None \<Rightarrow>
          (case e_pk e of
             None \<Rightarrow> (None, Expense_super_save e (adjust (e_account e) (- e_amount e) s))
           | Some k \<Rightarrow>
               (case get_row k (expenses s) of
                  None \<Rightarrow> (Some DoesNotExist, s)
                | Some prev \<Rightarrow>
                    (None, Expense_super_save e (expense_reverse_then_reapply prev e s)))))"
proof (cases "Expense_full_clean e s")
  case None
  show ?thesis
  proof (cases "e_pk e")
    case pkNone: None
    then show ?thesis using None
      by (simp add: Expense_save_def Expense_save_body_def atomic_def)
  next
    case (Some k)
    show ?thesis
    proof (cases "get_row k (expenses s)")
      case rowNone: None
      then show ?thesis using None Some
        by (simp add: Expense_save_def Expense_save_body_def atomic_def)
    next
      case (Some prev)
      then show ?thesis using None \<open>e_pk e = Some k\<close>
        by (simp add: Expense_update_ok)
    qed
  qed
next
  case (Some er)
  then show ?thesis by (simp add: Expense_save_def)
qed

lemma consistent_Expense_create:
  assumes "balances_consistent s" and "e_pk e = None"
  shows "balances_consistent (Expense_super_save e (adjust (e_account e) (- e_amount e) s))"
  using assms(1)
proof (rule consistent_after_adjusts [where adjs = "[(e_account e, - e_amount e)]"])
  show "accounts (Expense_super_save e (adjust (e_account e) (- e_amount e) s)) =
        foldr (\<lambda>(k, d). adjust_balance k d) [(e_account e, - e_amount e)] (accounts s)"
    by (simp add: Expense_super_save_def)
  show "ledger_balance a (Expense_super_save e (adjust (e_account e) (- e_amount e) s)) =
        ledger_balance a s + (\<Sum>(k, d)\<leftarrow>[(e_account e, - e_amount e)]. if a = k then d else 0)" for a
    using assms(2)
    by (simp add: ledger_balance_def Expense_super_save_def save_row_def total_append)
qed

lemma consistent_Expense_update:
  assumes "balances_consistent s" and "distinct (map fst (expenses s))"
    and "e_pk e = Some k" and "get_row k (expenses s) = Some prev"
  shows "balances_consistent (Expense_super_save e (expense_reverse_then_reapply prev e s))"
  using assms(1)
proof (rule consistent_after_adjusts
    [where adjs = "[(e_account e, - e_amount e), (e_account prev, e_amount prev)]"])
  show "accounts (Expense_super_save e (expense_reverse_then_reapply prev e s)) =
        foldr (\<lambda>(k, d). adjust_balance k d)
          [(e_account e, - e_amount e), (e_account prev, e_amount prev)] (accounts s)"
    by (simp add: Expense_super_save_def expense_reverse_then_reapply_def)
  have h: "has_row k (expenses s)" using assms(4) by (rule get_row_has_row)
  show "ledger_balance a (Expense_super_save e (expense_reverse_then_reapply prev e s)) =
        ledger_balance a s +
          (\<Sum>(k, d)\<leftarrow>[(e_account e, - e_amount e), (e_account prev, e_amount prev)]. if a = k then d else 0)" for a
    using assms(3) h
    by (simp add: ledger_balance_def Expense_super_save_def expense_reverse_then_reapply_def
        save_row_def total_update_row [OF assms(2,4)])
qed

lemma consistent_Expense_delete:
  assumes "balances_consistent s" and "distinct (map fst (expenses s))"
    and "get_row k (expenses s) = Some e"
  shows "balances_consistent ((adjust (e_account e) (e_amount e) s)\<lparr>expenses := delete_row k (expenses s)\<rparr>)"
  using assms(1)
proof (rule consistent_after_adjusts [where adjs = "[(e_account e, e_amount e)]"])
  show "accounts ((adjust (e_account e) (e_amount e) s)\<lparr>expenses := delete_row k (expenses s)\<rparr>) =
        foldr (\<lambda>(k, d). adjust_balance k d) [(e_account e, e_amount e)] (accounts s)"
    by simp
  show "ledger_balance a ((adjust (e_account e) (e_amount e) s)\<lparr>expenses := delete_row k (expenses s)\<rparr>) =
        ledger_balance a s + (\<Sum>(k, d)\<leftarrow>[(e_account e, e_amount e)]. if a = k then d else 0)" for a
    by (simp add: ledger_balance_def total_delete_row [OF assms(2,3)])
qed


subsection \<open>Incomes\<close>

lemma Income_save_unfold:
  "Income_save i s =
     (case Income_full_clean i s of
        Some er \<Rightarrow> (Some er, s)
      | None \<Rightarrow>
          (case i_pk i of
             None \<Rightarrow> (None, Income_super_save i (adjust (i_account i) (i_amount i) s))
           | Some k \<Rightarrow>
               (case get_row k (incomes s) of
                  None \<Rightarrow> (Some DoesNotExist, s)
                | Some prev \<Rightarrow>
                    (None, Income_super_save i (income_reverse_then_reapply prev i s)))))"
proof (cases "Income_full_clean i s")
  case None
  show ?thesis
  proof (cases "i_pk i")
    case pkNone: None
    then show ?thesis using None
      by (simp add: Income_save_def Income_save_body_def atomic_def)
  next
    case (Some k)
    show ?thesis
    proof (cases "get_row k (incomes s)")
      case rowNone: None
      then show ?thesis using None Some
        by (simp add: Income_save_def Income_save_body_def atomic_def)
    next
      case (Some prev)
      then show ?thesis using None \<open>i_pk i = Some k\<close>
        by (simp add: Income_update_ok)
    qed
  qed
next
  case (Some er)
  then show ?thesis by (simp add: Income_save_def)
qed

lemma consistent_Income_create:
  assumes "balances_consistent s" and "i_pk i = None"
  shows "balances_consistent (Income_super_save i (adjust (i_account i) (i_amount i) s))"
  using assms(1)
proof (rule consistent_after_adjusts [where adjs = "[(i_account i, i_amount i)]"])
  show "accounts (Income_super_save i (adjust (i_account i) (i_amount i) s)) =
        foldr (\<lambda>(k, d). adjust_balance k d) [(i_account i, i_amount i)] (accounts s)"
    by (simp add: Income_super_save_def)
  show "ledger_balance a (Income_super_save i (adjust (i_account i) (i_amount i) s)) =
        ledger_balance a s + (\<Sum>(k, d)\<leftarrow>[(i_account i, i_amount i)]. if a = k then d else 0)" for a
    using assms(2)
    by (simp add: ledger_balance_def Income_super_save_def save_row_def total_append)
qed

lemma consistent_Income_update:
  assumes "balances_consistent s" and "distinct (map fst (incomes s))"
    and "i_pk i = Some k" and "get_row k (incomes s) = Some prev"
  shows "balances_consistent (Income_super_save i (income_reverse_then_reapply prev i s))"
  using assms(1)
proof (rule consistent_after_adjusts
    [where adjs = "[(i_account i, i_amount i), (i_account prev, - i_amount prev)]"])
  show "accounts (Income_super_save i (income_reverse_then_reapply prev i s)) =
        foldr (\<lambda>(k, d). adjust_balance k d)
          [(i_account i, i_amount i), (i_account prev, - i_amount prev)] (accounts s)"
    by (simp add: Income_super_save_def income_reverse_then_reapply_def)
  have h: "has_row k (incomes s)" using assms(4) by (rule get_row_has_row)
  show "ledger_balance a (Income_super_save i (income_reverse_then_reapply prev i s)) =
        ledger_balance a s +
          (\<Sum>(k, d)\<leftarrow>[(i_account i, i_amount i), (i_account prev, - i_amount prev)]. if a = k then d else 0)" for a
    using assms(3) h
    by (simp add: ledger_balance_def Income_super_save_def income_reverse_then_reapply_def
        save_row_def total_update_row [OF assms(2,4)])
qed

lemma consistent_Income_delete:
  assumes "balances_consistent s" and "distinct (map fst (incomes s))"
    and "get_row k (incomes s) = Some i"
  shows "balances_consistent ((adjust (i_account i) (- i_amount i) s)\<lparr>incomes := delete_row k (incomes s)\<rparr>)"
  using assms(1)
proof (rule consistent_after_adjusts [where adjs = "[(i_account i, - i_amount i)]"])
  show "accounts ((adjust (i_account i) (- i_amount i) s)\<lparr>incomes := delete_row k (incomes s)\<rparr>) =
        foldr (\<lambda>(k, d). adjust_balance k d) [(i_account i, - i_amount i)] (accounts s)"
    by simp
  show "ledger_balance a ((adjust (i_account i) (- i_amount i) s)\<lparr>incomes := delete_row k (incomes s)\<rparr>) =
        ledger_balance a s + (\<Sum>(k, d)\<leftarrow>[(i_account i, - i_amount i)]. if a = k then d else 0)" for a
    by (simp add: ledger_balance_def total_delete_row [OF assms(2,3)])
qed

subsection \<open>Transfers\<close>

lemma consistent_Transfer_create:
  assumes "balances_consistent s" and "t_pk t = None"
  shows "balances_consistent (Transfer_super_save t (apply_effect t s))"
  using assms(1)
proof (rule consistent_after_adjusts
    [where adjs = "[(to_account t, t_amount t), (from_account t, - t_amount t)]"])
  show "accounts (Transfer_super_save t (apply_effect t s)) =
        foldr (\<lambda>(k, d). adjust_balance k d)
          [(to_account t, t_amount t), (from_account t, - t_amount t)] (accounts s)"
    by (simp add: Transfer_super_save_def apply_effect_def)
  show "ledger_balance a (Transfer_super_save t (apply_effect t s)) =
        ledger_balance a s +
          (\<Sum>(k, d)\<leftarrow>[(to_account t, t_amount t), (from_account t, - t_amount t)]. if a = k then d else 0)" for a
    using assms(2)
    by (simp add: ledger_balance_def Transfer_super_save_def apply_effect_def save_row_def total_append)
qed

lemma consistent_Transfer_update:
  assumes "balances_consistent s" and "distinct (map fst (transfers s))"
    and "t_pk t = Some k" and "get_row k (transfers s) = Some p"
  shows "balances_consistent (Transfer_super_save t (apply_effect t (reverse_effect p s)))"
  using assms(1)
proof (rule consistent_after_adjusts
    [where adjs = "[(to_account t, t_amount t), (from_account t, - t_amount t),
                    (to_account p, - t_amount p), (from_account p, t_amount p)]"])
  show "accounts (Transfer_super_save t (apply_effect t (reverse_effect p s))) =
        foldr (\<lambda>(k, d). adjust_balance k d)
          [(to_account t, t_amount t), (from_account t, - t_amount t),
           (to_account p, - t_amount p), (from_account p, t_amount p)] (accounts s)"
    by (simp add: Transfer_super_save_def apply_effect_def reverse_effect_def)
  have h: "has_row k (transfers s)" using assms(4) by (rule get_row_has_row)
  show "ledger_balance a (Transfer_super_save t (apply_effect t (reverse_effect p s))) =
        ledger_balance a s +
          (\<Sum>(k, d)\<leftarrow>[(to_account t, t_amount t), (from_account t, - t_amount t),
                      (to_account p, - t_amount p), (from_account p, t_amount p)]. if a = k then d else 0)" for a
    using assms(3) h
    by (simp add: ledger_balance_def Transfer_super_save_def apply_effect_def reverse_effect_def
        save_row_def total_update_row [OF assms(2,4)])
qed

lemma consistent_Transfer_delete:
  assumes "balances_consistent s" and "distinct (map fst (transfers s))"
    and "get_row k (transfers s) = Some p"
  shows "balances_consistent ((reverse_effect p s)\<lparr>transfers := delete_row k (transfers s)\<rparr>)"
  using assms(1)
proof (rule consistent_after_adjusts
    [where adjs = "[(to_account p, - t_amount p), (from_account p, t_amount p)]"])
  show "accounts ((reverse_effect p s)\<lparr>transfers := delete_row k (transfers s)\<rparr>) =
        foldr (\<lambda>(k, d). adjust_balance k d)
          [(to_account p, - t_amount p), (from_account p, t_amount p)] (accounts s)"
    by (simp add: reverse_effect_def)
  show "ledger_balance a ((reverse_effect p s)\<lparr>transfers := delete_row k (transfers s)\<rparr>) =
        ledger_balance a s +
          (\<Sum>(k, d)\<leftarrow>[(to_account p, - t_amount p), (from_account p, t_amount p)]. if a = k then d else 0)" for a
    by (simp add: ledger_balance_def reverse_effect_def total_delete_row [OF assms(2,3)])
qed


subsection \<open>Every mutation keeps the invariant\<close>

lemma pk_unique_adjust [simp]: "pk_unique (adjust k d s) = pk_unique s"
  by (simp add: pk_unique_def)

lemma pk_unique_reverse_effect [simp]: "pk_unique (reverse_effect p s) = pk_unique s"
  by (simp add: reverse_effect_def)

lemma pk_unique_apply_effect [simp]: "pk_unique (apply_effect p s) = pk_unique s"
  by (simp add: apply_effect_def)

lemma pk_unique_super_save:
  "pk_unique s \<Longrightarrow> pk_unique (Expense_super_save e s)"
  "pk_unique s \<Longrightarrow> pk_unique (Income_super_save i s)"
  "pk_unique s \<Longrightarrow> pk_unique (Transfer_super_save t s)"
  by (simp_all add: pk_unique_def Expense_super_save_def Income_super_save_def
      Transfer_super_save_def distinct_save_row)

lemma pk_unique_delete:
  "pk_unique s \<Longrightarrow> pk_unique (s\<lparr>expenses := delete_row k (expenses s)\<rparr>)"
  "pk_unique s \<Longrightarrow> pk_unique (s\<lparr>incomes := delete_row k (incomes s)\<rparr>)"
  "pk_unique s \<Longrightarrow> pk_unique (s\<lparr>transfers := delete_row k (transfers s)\<rparr>)"
  by (simp_all add: pk_unique_def distinct_delete_row)

lemma Expense_save_keeps:
  assumes u: "pk_unique s" and c: "balances_consistent s"
  shows "pk_unique (snd (Expense_save e s)) \<and> balances_consistent (snd (Expense_save e s))"
proof -
  have d: "distinct (map fst (expenses s))" using u by (simp add: pk_unique_def)
  show ?thesis
    using u c
    by (auto simp: Expense_save_unfold pk_unique_super_save expense_reverse_then_reapply_def
        consistent_Expense_create
        consistent_Expense_update [OF c d, unfolded expense_reverse_then_reapply_def]
        split: option.splits)
qed

lemma Income_save_keeps:
  assumes u: "pk_unique s" and c: "balances_consistent s"
  shows "pk_unique (snd (Income_save i s)) \<and> balances_consistent (snd (Income_save i s))"
proof -
  have d: "distinct (map fst (incomes s))" using u by (simp add: pk_unique_def)
  show ?thesis
    using u c
    by (auto simp: Income_save_unfold pk_unique_super_save income_reverse_then_reapply_def
        consistent_Income_create
        consistent_Income_update [OF c d, unfolded income_reverse_then_reapply_def]
        split: option.splits)
qed

lemma Transfer_save_keeps:
  assumes u: "pk_unique s" and c: "balances_consistent s"
  shows "pk_unique (snd (Transfer_save t s)) \<and> balances_consistent (snd (Transfer_save t s))"
proof (cases "fst (Transfer_save t s) = None")
  case True
  have d: "distinct (map fst (transfers s))" using u by (simp add: pk_unique_def)
  have r: "snd (Transfer_save t s) = Transfer_super_save t (apply_effect t (prior_reversed t s))"
    using True by (rule Transfer_save_okD(3))
  have st: "\<not> (case t_pk t of None \<Rightarrow> False | Some k \<Rightarrow> get_row k (transfers s) = None)"
    using True by (auto simp: Transfer_save_unfold split: option.splits if_splits)
  have pu: "pk_unique (prior_reversed t s)"
    using u by (simp add: prior_reversed_def split: option.splits)
  have "balances_consistent (Transfer_super_save t (apply_effect t (prior_reversed t s)))"
  proof (cases "t_pk t")
    case None
    then show ?thesis using c by (simp add: prior_reversed_def consistent_Transfer_create)
  next
    case (Some k)
    then obtain p where p: "get_row k (transfers s) = Some p" using st by auto
    show ?thesis using Some p by (simp add: prior_reversed_def consistent_Transfer_update [OF c d])
  qed
  then show ?thesis using pu by (simp add: r pk_unique_super_save)
next
  case False
  then show ?thesis using u c by (simp add: Transfer_save_failure)
qed

lemma perform_keeps:
  "pk_unique s \<and> balances_consistent s \<longrightarrow>
     pk_unique (snd (perform m s)) \<and> balances_consistent (snd (perform m s))"
proof
  assume a: "pk_unique s \<and> balances_consistent s"
  then have u: "pk_unique s" and c: "balances_consistent s" by simp_all
  have de: "distinct (map fst (expenses s))" and di: "distinct (map fst (incomes s))"
    and dt: "distinct (map fst (transfers s))"
    using u by (simp_all add: pk_unique_def)
  show "pk_unique (snd (perform m s)) \<and> balances_consistent (snd (perform m s))"
  proof (cases m)
    case (SaveExpense e)
    then show ?thesis using Expense_save_keeps [OF u c] by simp
  next
    case (DeleteExpense k)
    show ?thesis
    proof (cases "get_row k (expenses s)")
      case None
      then show ?thesis using DeleteExpense u c by simp
    next
      case (Some e)
      have "Expense_delete (e\<lparr>e_pk := Some k\<rparr>) s =
            (None, (adjust (e_account e) (e_amount e) s)\<lparr>expenses := delete_row k (expenses s)\<rparr>)"
        by (simp add: Expense_delete_def Expense_delete_body_def atomic_def)
      then show ?thesis
        using DeleteExpense Some u consistent_Expense_delete [OF c de Some]
          pk_unique_delete(1) [of "adjust (e_account e) (e_amount e) s" k]
        by simp
    qed
  next
    case (SaveIncome i)
    then show ?thesis using Income_save_keeps [OF u c] by simp
  next
    case (DeleteIncome k)
    show ?thesis
    proof (cases "get_row k (incomes s)")
      case None
      then show ?thesis using DeleteIncome u c by simp
    next
      case (Some i)
      have "Income_delete (i\<lparr>i_pk := Some k\<rparr>) s =
            (None, (adjust (i_account i) (- i_amount i) s)\<lparr>incomes := delete_row k (incomes s)\<rparr>)"
        by (simp add: Income_delete_def Income_delete_body_def atomic_def)
      then show ?thesis
        using DeleteIncome Some u consistent_Income_delete [OF c di Some]
          pk_unique_delete(2) [of "adjust (i_account i) (- i_amount i) s" k]
        by simp
    qed
  next
    case (SaveTransfer t)
    then show ?thesis using Transfer_save_keeps [OF u c] by simp
  next
    case (DeleteTransfer k)
    show ?thesis
    proof (cases "get_row k (transfers s)")
      case None
      then show ?thesis using DeleteTransfer u c by simp
    next
      case (Some p)
      have "Transfer_delete (p\<lparr>t_pk := Some k\<rparr>) s =
            (None, (reverse_effect p s)\<lparr>transfers := delete_row k (transfers s)\<rparr>)"
        using Some by (simp add: Transfer_delete_stored)
      then show ?thesis
        using DeleteTransfer Some u consistent_Transfer_delete [OF c dt Some]
          pk_unique_delete(3) [of "reverse_effect p s" k]
        by simp
    qed
  qed
qed

subsection \<open>Balance and ledger sum move alike\<close>

lemma offsets_from_adjust:
  "offsets_from f (adjust_balance k d accs) =
   offsets_from (\<lambda>a. f a - (if a = k then d else 0)) accs"
  by (induction accs) (auto simp: offsets_from_def adjust_balance_def bump_def)

lemma offsets_from_cong:
  "(\<And>a. f a = g a) \<Longrightarrow> offsets_from f accs = offsets_from g accs"
  by (simp add: offsets_from_def)

lemma offsets_from_adjusts:
  "offsets_from f (foldr (\<lambda>(k, d). adjust_balance k d) adjs accs) =
   offsets_from (\<lambda>a. f a - (\<Sum>(k, d)\<leftarrow>adjs. if a = k then d else 0)) accs"
proof (induction adjs arbitrary: f)
  case Nil
  show ?case by simp
next
  case (Cons kd adjs)
  obtain k d where kd: "kd = (k, d)" by (cases kd)
  have "offsets_from f (foldr (\<lambda>(k, d). adjust_balance k d) (kd # adjs) accs) =
        offsets_from (\<lambda>a. f a - (if a = k then d else 0))
          (foldr (\<lambda>(k, d). adjust_balance k d) adjs accs)"
    by (simp add: kd offsets_from_adjust)
  also have "\<dots> = offsets_from
      (\<lambda>a. f a - (if a = k then d else 0) - (\<Sum>(k, d)\<leftarrow>adjs. if a = k then d else 0)) accs"
    by (rule Cons.IH)
  also have "\<dots> = offsets_from (\<lambda>a. f a - (\<Sum>(k, d)\<leftarrow>kd # adjs. if a = k then d else 0)) accs"
    by (rule offsets_from_cong) (simp add: kd)
  finally show ?case .
qed

lemma offsets_after_adjusts:
  assumes "accounts s' = foldr (\<lambda>(k, d). adjust_balance k d) adjs (accounts s)"
    and "\<And>a. ledger_balance a s' = ledger_balance a s + (\<Sum>(k, d)\<leftarrow>adjs. if a = k then d else 0)"
  shows "offsets s' = offsets s"
proof -
  have "offsets s' =
        offsets_from (\<lambda>a. ledger_balance a s' - (\<Sum>(k, d)\<leftarrow>adjs. if a = k then d else 0)) (accounts s)"
    by (simp only: offsets_def assms(1) offsets_from_adjusts)
  also have "\<dots> = offsets_from (\<lambda>a. ledger_balance a s) (accounts s)"
    by (rule offsets_from_cong) (simp add: assms(2))
  finally show ?thesis by (simp add: offsets_def)
qed

lemma balances_consistent_offsets:
  "balances_consistent s \<longleftrightarrow> list_all (\<lambda>(a, d). d = 0) (offsets s)"
  by (simp add: balances_consistent_def offsets_def offsets_from_def list_all_iff split_def)

lemma offsets_Expense_create:
  assumes "e_pk e = None"
  shows "offsets (Expense_super_save e (adjust (e_account e) (- e_amount e) s)) = offsets s"
proof (rule offsets_after_adjusts [where adjs = "[(e_account e, - e_amount e)]"])
  show "accounts (Expense_super_save e (adjust (e_account e) (- e_amount e) s)) =
        foldr (\<lambda>(k, d). adjust_balance k d) [(e_account e, - e_amount e)] (accounts s)"
    by (simp add: Expense_super_save_def)
  show "ledger_balance a (Expense_super_save e (adjust (e_account e) (- e_amount e) s)) =
        ledger_balance a s + (\<Sum>(k, d)\<leftarrow>[(e_account e, - e_amount e)]. if a = k then d else 0)" for a
    using assms(1)
    by (simp add: ledger_balance_def Expense_super_save_def save_row_def total_append)
qed


lemma offsets_Expense_update:
  assumes "distinct (map fst (expenses s))"
    and "e_pk e = Some k" and "get_row k (expenses s) = Some prev"
  shows "offsets (Expense_super_save e (expense_reverse_then_reapply prev e s)) = offsets s"
proof (rule offsets_after_adjusts
    [where adjs = "[(e_account e, - e_amount e), (e_account prev, e_amount prev)]"])
  show "accounts (Expense_super_save e (expense_reverse_then_reapply prev e s)) =
        foldr (\<lambda>(k, d). adjust_balance k d)
          [(e_account e, - e_amount e), (e_account prev, e_amount prev)] (accounts s)"
    by (simp add: Expense_super_save_def expense_reverse_then_reapply_def)
  have h: "has_row k (expenses s)" using assms(3) by (rule get_row_has_row)
  show "ledger_balance a (Expense_super_save e (expense_reverse_then_reapply prev e s)) =
        ledger_balance a s +
          (\<Sum>(k, d)\<leftarrow>[(e_account e, - e_amount e), (e_account prev, e_amount prev)]. if a = k then d else 0)" for a
    using assms(2) h
    by (simp add: ledger_balance_def Expense_super_save_def expense_reverse_then_reapply_def
        save_row_def total_update_row [OF assms(1,3)])
qed


lemma offsets_Expense_delete:
  assumes "distinct (map fst (expenses s))"
    and "get_row k (expenses s) = Some e"
  shows "offsets ((adjust (e_account e) (e_amount e) s)\<lparr>expenses := delete_row k (expenses s)\<rparr>) = offsets s"
proof (rule offsets_after_adjusts [where adjs = "[(e_account e, e_amount e)]"])
  show "accounts ((adjust (e_account e) (e_amount e) s)\<lparr>expenses := delete_row k (expenses s)\<rparr>) =
        foldr (\<lambda>(k, d). adjust_balance k d) [(e_account e, e_amount e)] (accounts s)"
    by simp
  show "ledger_balance a ((adjust (e_account e) (e_amount e) s)\<lparr>expenses := delete_row k (expenses s)\<rparr>) =
        ledger_balance a s + (\<Sum>(k, d)\<leftarrow>[(e_account e, e_amount e)]. if a = k then d else 0)" for a
    by (simp add: ledger_balance_def total_delete_row [OF assms(1,2)])
qed


lemma offsets_Income_create:
  assumes "i_pk i = None"
  shows "offsets (Income_super_save i (adjust (i_account i) (i_amount i) s)) = offsets s"
proof (rule offsets_after_adjusts [where adjs = "[(i_account i, i_amount i)]"])
  show "accounts (Income_super_save i (adjust (i_account i) (i_amount i) s)) =
        foldr (\<lambda>(k, d). adjust_balance k d) [(i_account i, i_amount i)] (accounts s)"
    by (simp add: Income_super_save_def)
  show "ledger_balance a (Income_super_save i (adjust (i_account i) (i_amount i) s)) =
        ledger_balance a s + (\<Sum>(k, d)\<leftarrow>[(i_account i, i_amount i)]. if a = k then d else 0)" for a
    using assms(1)
    by (simp add: ledger_balance_def Income_super_save_def save_row_def total_append)
qed


lemma offsets_Income_update:
  assumes "distinct (map fst (incomes s))"
    and "i_pk i = Some k" and "get_row k (incomes s) = Some prev"
  shows "offsets (Income_super_save i (income_reverse_then_reapply prev i s)) = offsets s"
proof (rule offsets_after_adjusts
    [where adjs = "[(i_account i, i_amount i), (i_account prev, - i_amount prev)]"])
  show "accounts (Income_super_save i (income_reverse_then_reapply prev i s)) =
        foldr (\<lambda>(k, d). adjust_balance k d)
          [(i_account i, i_amount i), (i_account prev, - i_amount prev)] (accounts s)"
    by (simp add: Income_super_save_def income_reverse_then_reapply_def)
  have h: "has_row k (incomes s)" using assms(3) by (rule get_row_has_row)
  show "ledger_balance a (Income_super_save i (income_reverse_then_reapply prev i s)) =
        ledger_balance a s +
          (\<Sum>(k, d)\<leftarrow>[(i_account i, i_amount i), (i_account prev, - i_amount prev)]. if a = k then d else 0)" for a
    using assms(2) h
    by (simp add: ledger_balance_def Income_super_save_def income_reverse_then_reapply_def
        save_row_def total_update_row [OF assms(1,3)])
qed


lemma offsets_Income_delete:
  assumes "distinct (map fst (incomes s))"
    and "get_row k (incomes s) = Some i"
  shows "offsets ((adjust (i_account i) (- i_amount i) s)\<lparr>incomes := delete_row k (incomes s)\<rparr>) = offsets s"
proof (rule offsets_after_adjusts [where adjs = "[(i_account i, - i_amount i)]"])
  show "accounts ((adjust (i_account i) (- i_amount i) s)\<lparr>incomes := delete_row k (incomes s)\<rparr>) =
        foldr (\<lambda>(k, d). adjust_balance k d) [(i_account i, - i_amount i)] (accounts s)"
    by simp
  show "ledger_balance a ((adjust (i_account i) (- i_amount i) s)\<lparr>incomes := delete_row k (incomes s)\<rparr>) =
        ledger_balance a s + (\<Sum>(k, d)\<leftarrow>[(i_account i, - i_amount i)]. if a = k then d else 0)" for a
    by (simp add: ledger_balance_def total_delete_row [OF assms(1,2)])
qed


lemma offsets_Transfer_create:
  assumes "t_pk t = None"
  shows "offsets (Transfer_super_save t (apply_effect t s)) = offsets s"
proof (rule offsets_after_adjusts
    [where adjs = "[(to_account t, t_amount t), (from_account t, - t_amount t)]"])
  show "accounts (Transfer_super_save t (apply_effect t s)) =
        foldr (\<lambda>(k, d). adjust_balance k d)
          [(to_account t, t_amount t), (from_account t, - t_amount t)] (accounts s)"
    by (simp add: Transfer_super_save_def apply_effect_def)
  show "ledger_balance a (Transfer_super_save t (apply_effect t s)) =
        ledger_balance a s +
          (\<Sum>(k, d)\<leftarrow>[(to_account t, t_amount t), (from_account t, - t_amount t)]. if a = k then d else 0)" for a
    using assms(1)
    by (simp add: ledger_balance_def Transfer_super_save_def apply_effect_def save_row_def total_append)
qed


lemma offsets_Transfer_update:
  assumes "distinct (map fst (transfers s))"
    and "t_pk t = Some k" and "get_row k (transfers s) = Some p"
  shows "offsets (Transfer_super_save t (apply_effect t (reverse_effect p s))) = offsets s"
proof (rule offsets_after_adjusts
    [where adjs = "[(to_account t, t_amount t), (from_account t, - t_amount t),
                    (to_account p, - t_amount p), (from_account p, t_amount p)]"])
  show "accounts (Transfer_super_save t (apply_effect t (reverse_effect p s))) =
        foldr (\<lambda>(k, d). adjust_balance k d)
          [(to_account t, t_amount t), (from_account t, - t_amount t),
           (to_account p, - t_amount p), (from_account p, t_amount p)] (accounts s)"
    by (simp add: Transfer_super_save_def apply_effect_def reverse_effect_def)
  have h: "has_row k (transfers s)" using assms(3) by (rule get_row_has_row)
  show "ledger_balance a (Transfer_super_save t (apply_effect t (reverse_effect p s))) =
        ledger_balance a s +
          (\<Sum>(k, d)\<leftarrow>[(to_account t, t_amount t), (from_account t, - t_amount t),
                      (to_account p, - t_amount p), (from_account p, t_amount p)]. if a = k then d else 0)" for a
    using assms(2) h
    by (simp add: ledger_balance_def Transfer_super_save_def apply_effect_def reverse_effect_def
        save_row_def total_update_row [OF assms(1,3)])
qed


lemma offsets_Transfer_delete:
  assumes "distinct (map fst (transfers s))"
    and "get_row k (transfers s) = Some p"
  shows "offsets ((reverse_effect p s)\<lparr>transfers := delete_row k (transfers s)\<rparr>) = offsets s"
proof (rule offsets_after_adjusts
    [where adjs = "[(to_account p, - t_amount p), (from_account p, t_amount p)]"])
  show "accounts ((reverse_effect p s)\<lparr>transfers := delete_row k (transfers s)\<rparr>) =
        foldr (\<lambda>(k, d). adjust_balance k d)
          [(to_account p, - t_amount p), (from_account p, t_amount p)] (accounts s)"
    by (simp add: reverse_effect_def)
  show "ledger_balance a ((reverse_effect p s)\<lparr>transfers := delete_row k (transfers s)\<rparr>) =
        ledger_balance a s +
          (\<Sum>(k, d)\<leftarrow>[(to_account p, - t_amount p), (from_account p, t_amount p)]. if a = k then d else 0)" for a
    by (simp add: ledger_balance_def reverse_effect_def total_delete_row [OF assms(1,2)])
qed



lemma Expense_save_moves_alike:
  assumes u: "pk_unique s"
  shows "pk_unique (snd (Expense_save e s)) \<and> offsets (snd (Expense_save e s)) = offsets s"
proof -
  have d: "distinct (map fst (expenses s))" using u by (simp add: pk_unique_def)
  show ?thesis
    using u
    by (auto simp: Expense_save_unfold pk_unique_super_save expense_reverse_then_reapply_def
        offsets_Expense_create
        offsets_Expense_update [OF d, unfolded expense_reverse_then_reapply_def]
        split: option.splits)
qed

lemma Income_save_moves_alike:
  assumes u: "pk_unique s"
  shows "pk_unique (snd (Income_save i s)) \<and> offsets (snd (Income_save i s)) = offsets s"
proof -
  have d: "distinct (map fst (incomes s))" using u by (simp add: pk_unique_def)
  show ?thesis
    using u
    by (auto simp: Income_save_unfold pk_unique_super_save income_reverse_then_reapply_def
        offsets_Income_create
        offsets_Income_update [OF d, unfolded income_reverse_then_reapply_def]
        split: option.splits)
qed

lemma Transfer_save_moves_alike:
  assumes u: "pk_unique s"
  shows "pk_unique (snd (Transfer_save t s)) \<and> offsets (snd (Transfer_save t s)) = offsets s"
proof (cases "fst (Transfer_save t s) = None")
  case True
  have d: "distinct (map fst (transfers s))" using u by (simp add: pk_unique_def)
  have r: "snd (Transfer_save t s) = Transfer_super_save t (apply_effect t (prior_reversed t s))"
    using True by (rule Transfer_save_okD(3))
  have st: "\<not> (case t_pk t of None \<Rightarrow> False | Some k \<Rightarrow> get_row k (transfers s) = None)"
    using True by (auto simp: Transfer_save_unfold split: option.splits if_splits)
  have pu: "pk_unique (prior_reversed t s)"
    using u by (simp add: prior_reversed_def split: option.splits)
  have "offsets (Transfer_super_save t (apply_effect t (prior_reversed t s))) = offsets s"
  proof (cases "t_pk t")
    case None
    then show ?thesis by (simp add: prior_reversed_def offsets_Transfer_create)
  next
    case (Some k)
    then obtain p where p: "get_row k (transfers s) = Some p" using st by auto
    show ?thesis using Some p by (simp add: prior_reversed_def offsets_Transfer_update [OF d])
  qed
  then show ?thesis using pu by (simp add: r pk_unique_super_save)
next
  case False
  then show ?thesis using u by (simp add: Transfer_save_failure)
qed

lemma perform_moves_alike:
  assumes u: "pk_unique s"
  shows "pk_unique (snd (perform m s)) \<and> offsets (snd (perform m s)) = offsets s"
proof -
  have de: "distinct (map fst (expenses s))" and di: "distinct (map fst (incomes s))"
    and dt: "distinct (map fst (transfers s))"
    using u by (simp_all add: pk_unique_def)
  show ?thesis
  proof (cases m)
    case (SaveExpense e)
    then show ?thesis using Expense_save_moves_alike [OF u] by simp
  next
    case (DeleteExpense k)
    show ?thesis
    proof (cases "get_row k (expenses s)")
      case None
      then show ?thesis using DeleteExpense u by simp
    next
      case (Some e)
      have "Expense_delete (e\<lparr>e_pk := Some k\<rparr>) s =
            (None, (adjust (e_account e) (e_amount e) s)\<lparr>expenses := delete_row k (expenses s)\<rparr>)"
        by (simp add: Expense_delete_def Expense_delete_body_def atomic_def)
      then show ?thesis
        using DeleteExpense Some u offsets_Expense_delete [OF de Some]
          pk_unique_delete(1) [of "adjust (e_account e) (e_amount e) s" k]
        by simp
    qed
  next
    case (SaveIncome i)
    then show ?thesis using Income_save_moves_alike [OF u] by simp
  next
    case (DeleteIncome k)
    show ?thesis
    proof (cases "get_row k (incomes s)")
      case None
      then show ?thesis using DeleteIncome u by simp
    next
      case (Some i)
      have "Income_delete (i\<lparr>i_pk := Some k\<rparr>) s =
            (None, (adjust (i_account i) (- i_amount i) s)\<lparr>incomes := delete_row k (incomes s)\<rparr>)"
        by (simp add: Income_delete_def Income_delete_body_def atomic_def)
      then show ?thesis
        using DeleteIncome Some u offsets_Income_delete [OF di Some]
          pk_unique_delete(2) [of "adjust (i_account i) (- i_amount i) s" k]
        by simp
    qed
  next
    case (SaveTransfer t)
    then show ?thesis using Transfer_save_moves_alike [OF u] by simp
  next
    case (DeleteTransfer k)
    show ?thesis
    proof (cases "get_row k (transfers s)")
      case None
      then show ?thesis using DeleteTransfer u by simp
    next
      case (Some p)
      have "Transfer_delete (p\<lparr>t_pk := Some k\<rparr>) s =
            (None, (reverse_effect p s)\<lparr>transfers := delete_row k (transfers s)\<rparr>)"
        using Some by (simp add: Transfer_delete_stored)
      then show ?thesis
        using DeleteTransfer Some u offsets_Transfer_delete [OF dt Some]
          pk_unique_delete(3) [of "reverse_effect p s" k]
        by simp
    qed
  qed
qed

lemma perform_all_moves_alike:
  "pk_unique s \<Longrightarrow> pk_unique (perform_all ms s) \<and> offsets (perform_all ms s) = offsets s"
proof (induction ms arbitrary: s)
  case Nil
  then show ?case by simp
next
  case (Cons m ms)
  have 1: "pk_unique (snd (perform m s))" and 2: "offsets (snd (perform m s)) = offsets s"
    using perform_moves_alike [OF Cons.prems] by simp_all
  show ?case using Cons.IH [OF 1] 2 by simp
qed

text \<open>
  C2. Every create, update and delete of an expense, income or transfer moves the balance of
  each account by what it moves the account's ledger sum (incomes and incoming transfers
  less expenses and outgoing transfers), a delete being that of the stored row as loaded
  from the database. So what an account holds beyond its ledger sum, its opening balance,
  never changes, after one mutation or a run of them; the balance equals the ledger sum
  exactly when that difference is zero, and once it does it keeps doing so.
\<close>

theorem mutations_move_balance_and_ledger_alike:
  "(pk_unique s \<longrightarrow>
      pk_unique (snd (perform m s)) \<and> offsets (snd (perform m s)) = offsets s) \<and>
   (pk_unique s \<longrightarrow>
      pk_unique (perform_all ms s) \<and> offsets (perform_all ms s) = offsets s) \<and>
   (balances_consistent s \<longleftrightarrow> list_all (\<lambda>(a, d). d = 0) (offsets s)) \<and>
   (pk_unique s \<and> balances_consistent s \<longrightarrow> balances_consistent (perform_all ms s))"
proof (intro conjI impI)
  assume u: "pk_unique s"
  show "pk_unique (snd (perform m s))" using perform_moves_alike [OF u] by simp
  show "offsets (snd (perform m s)) = offsets s" using perform_moves_alike [OF u] by simp
  show "pk_unique (perform_all ms s)" using perform_all_moves_alike [OF u] by simp
  show "offsets (perform_all ms s) = offsets s" using perform_all_moves_alike [OF u] by simp
next
  show "balances_consistent s \<longleftrightarrow> list_all (\<lambda>(a, d). d = 0) (offsets s)"
    by (rule balances_consistent_offsets)
next
  assume a: "pk_unique s \<and> balances_consistent s"
  then have "offsets (perform_all ms s) = offsets s"
    using perform_all_moves_alike [of s ms] by simp
  then show "balances_consistent (perform_all ms s)"
    using a by (simp add: balances_consistent_offsets)
qed

lemmas seed_eval = seed_accounts_def Account_get_or_create_def Account_create_def name_taken_def
  empty_db_def offsets_def offsets_from_def ledger_balance_def total_def balances_consistent_def
  pk_unique_def

theorem mutations_move_balance_and_ledger_alike_witness:
  "pk_unique sample_db \<and> balances_consistent sample_db \<and>
   offsets sample_db = [(1, 0), (2, 0), (3, 0)] \<and>
   offsets (snd (perform (SaveTransfer \<lparr>t_pk = Some 1, t_user = 1, from_account = 2, to_account = 1, t_amount = 150\<rparr>) sample_db))
     = [(1, 0), (2, 0), (3, 0)] \<and>
   accounts (snd (perform (SaveTransfer \<lparr>t_pk = Some 1, t_user = 1, from_account = 2, to_account = 1, t_amount = 150\<rparr>) sample_db)) =
     [(1, \<lparr>a_user = 1, a_name = ''Checking'', balance = 1150, is_system = False\<rparr>),
      (2, \<lparr>a_user = 1, a_name = ''Savings'', balance = 50, is_system = False\<rparr>),
      (3, \<lparr>a_user = 1, a_name = ''External (System)'', balance = 0, is_system = True\<rparr>)] \<and>
   balances_consistent (perform_all [DeleteExpense 1, SaveTransfer \<lparr>t_pk = Some 1, t_user = 1, from_account = 2, to_account = 1, t_amount = 150\<rparr>] sample_db)"
  using mutations_move_balance_and_ledger_alike
    [of sample_db "SaveTransfer \<lparr>t_pk = Some 1, t_user = 1, from_account = 2, to_account = 1, t_amount = 150\<rparr>"
        "[DeleteExpense 1, SaveTransfer \<lparr>t_pk = Some 1, t_user = 1, from_account = 2, to_account = 1, t_amount = 150\<rparr>]"]
  by (simp add: sample_eval seed_eval
      Transfer_save_def Transfer_save_body_def Transfer_full_clean_def Transfer_clean_def
      Transfer_super_save_def)

text \<open>
  The equality itself does not hold at every quiet point. The seed command opens its two
  accounts at 15000.00 and 8000.00 with no ledger row behind them, and an income saved
  afterwards leaves the difference in place. And \<open>Expense.delete\<close> credits what the
  instance holds: called on an instance whose amount is not the stored one (999 against
  the stored 100), it leaves the checking account of the sample database off its ledger sum.
\<close>

theorem seeded_balances_exceed_ledger:
  "accounts (seed_accounts 1 empty_db) =
     [(1, \<lparr>a_user = 1, a_name = ''SBI Savings'', balance = 1500000, is_system = False\<rparr>),
      (2, \<lparr>a_user = 1, a_name = ''HDFC Checking'', balance = 800000, is_system = False\<rparr>)] \<and>
   ledger_balance 1 (seed_accounts 1 empty_db) = 0 \<and>
   \<not> balances_consistent (seed_accounts 1 empty_db) \<and>
   fst (perform (SaveIncome \<lparr>i_pk = None, i_user = 1, i_account = 1, i_amount = 1000000\<rparr>)
         (seed_accounts 1 empty_db)) = None \<and>
   \<not> balances_consistent
       (snd (perform (SaveIncome \<lparr>i_pk = None, i_user = 1, i_account = 1, i_amount = 1000000\<rparr>)
              (seed_accounts 1 empty_db))) \<and>
   balances_consistent sample_db \<and>
   fst (Expense_delete \<lparr>e_pk = Some 1, e_user = 1, e_account = 1, e_category = 1, e_amount = 999\<rparr> sample_db) = None \<and>
   \<not> balances_consistent
       (snd (Expense_delete \<lparr>e_pk = Some 1, e_user = 1, e_account = 1, e_category = 1, e_amount = 999\<rparr> sample_db))"
  by (simp add: sample_eval seed_eval Income_save_def Income_save_body_def Income_full_clean_def
      Income_clean_def Income_super_save_def Expense_delete_def Expense_delete_body_def)

subsection \<open>The external account\<close>

lemma get_external_account_first_call:
  assumes "filter (\<lambda>(i, a). a_user a = user \<and> is_system a) (accounts s) = []"
    and "\<not> name_taken user ''External (System)'' (accounts s)"
  shows "get_external_account user s =
           (Inr (fresh_pk (accounts s),
                 \<lparr>a_user = user, a_name = ''External (System)'', balance = 0, is_system = True\<rparr>),
            s\<lparr>accounts := accounts s @
                 [(fresh_pk (accounts s),
                   \<lparr>a_user = user, a_name = ''External (System)'', balance = 0, is_system = True\<rparr>)]\<rparr>)"
  using assms by (simp add: get_external_account_def Account_create_def)

lemma get_external_account_again:
  assumes "get_external_account user s = (Inr acc, s')"
  shows "get_external_account user s' = (Inr acc, s')"
proof (cases "filter (\<lambda>(i, a). a_user a = user \<and> is_system a) (accounts s)")
  case Nil
  let ?new = "\<lparr>a_user = user, a_name = ''External (System)'', balance = 0, is_system = True\<rparr>"
  from assms Nil have free: "\<not> name_taken user ''External (System)'' (accounts s)"
    by (auto simp: get_external_account_def Account_create_def split: if_splits)
  from assms Nil free have acc: "acc = (fresh_pk (accounts s), ?new)"
    and s': "s' = s\<lparr>accounts := accounts s @ [(fresh_pk (accounts s), ?new)]\<rparr>"
    by (auto simp: get_external_account_def Account_create_def)
  have "filter (\<lambda>(i, a). a_user a = user \<and> is_system a) (accounts s') = [acc]"
    by (simp add: s' acc Nil)
  then show ?thesis by (simp add: get_external_account_def)
next
  case (Cons row rest)
  then have "rest = []" and "acc = row" and "s' = s"
    using assms by (auto simp: get_external_account_def split: list.splits)
  then show ?thesis using Cons by (simp add: get_external_account_def)
qed

text \<open>
  C7. \<open>get_external_account\<close> is to give every user their one hidden account, creating
  it on the first call (\<open>get_external_account_first_call\<close>) and returning it on every
  later one (\<open>get_external_account_again\<close>). The first call does not get that far for
  a user who already has an account of their own named like the hidden one: the insert
  breaks \<open>unique_account_name_per_user\<close>, the call ends in \<open>IntegrityError\<close> and no
  account is created.
\<close>

theorem get_external_account_name_taken:
  "get_external_account 1
     \<lparr>accounts = [(1, \<lparr>a_user = 1, a_name = ''External (System)'', balance = 0, is_system = False\<rparr>)],
      categories = [], expenses = [], incomes = [], transfers = []\<rparr> =
     (Inl IntegrityError,
      \<lparr>accounts = [(1, \<lparr>a_user = 1, a_name = ''External (System)'', balance = 0, is_system = False\<rparr>)],
       categories = [], expenses = [], incomes = [], transfers = []\<rparr>)"
  by (simp add: get_external_account_def Account_create_def name_taken_def)

end
